theory Spec2Isabelle
  imports Main "HOL-Library.Word"
begin

section \<open>Accounts, identifiers and failures\<close>

text \<open>
  Solidity's \<open>address\<close> is a 160-bit value and \<open>uint256\<close> a 256-bit one. The zero
  address is the value every unset \<open>address\<close> storage slot reads as; no transaction has
  it as \<open>msg.sender\<close>.
\<close>

type_synonym address = "160 word"
type_synonym uint256 = "256 word"

text \<open>
  A reverted call is a value of \<open>error\<close>. The constructors are the failure kinds of the
  specification; the revert strings of the contracts map to them as follows.
  \<^item> \<open>SystemPaused\<close>: the \<open>whenNotPaused\<close> modifier.
  \<^item> \<open>IdenticalAssets\<close>: "Cannot swap the same token".
  \<^item> \<open>NotOwner\<close>: "Not the owner of tokenA".
  \<^item> \<open>CounterpartyMismatch\<close>: "TokenB not owned by specified owner".
  \<^item> \<open>NotApproved\<close>: "Contract not approved for tokenA" and "... for tokenB".
  \<^item> \<open>SwapNotPending\<close>: "Swap already executed".
  \<^item> \<open>NotCounterparty\<close>: "Not the tokenB owner".
  \<^item> \<open>NotProposer\<close>: "Not the tokenA owner".
  \<^item> \<open>ReentrantCall\<close>: the \<open>nonReentrant\<close> modifier.
  \<^item> \<open>NotAdministrator\<close>: the \<open>onlyOwner\<close> modifier.
  \<^item> \<open>NotPaused\<close>: \<open>unpause\<close> while not paused.
  \<^item> \<open>Overflow\<close>: the arithmetic panic of a checked \<open>++\<close> (Solidity 0.8).
  \<^item> \<open>UnknownAsset\<close>, \<open>NotHolder\<close>, \<open>NotAuthorized\<close>: raised by the asset registry.
  \<^item> \<open>ZeroRecipient\<close>, \<open>AssetExists\<close>, \<open>NotReceiver\<close>: raised by the registry when
    an asset is minted to the zero address, under an id that has a holder already, or to
    a recipient that does not pass the ERC721Receiver check.
  \<^item> \<open>UnknownSwap\<close>, \<open>OwnershipChanged\<close>: named by the specification; no statement
    of either contract raises them.
\<close>

datatype error =
    SystemPaused | NotPaused | NotAdministrator | ReentrantCall | Overflow
  | IdenticalAssets | NotOwner | CounterpartyMismatch | NotApproved
  | SwapNotPending | NotCounterparty | NotProposer
  | UnknownAsset | NotHolder | NotAuthorized
  | ZeroRecipient | AssetExists | NotReceiver
  | UnknownSwap | OwnershipChanged

section \<open>The asset registry (PokemonCard)\<close>

datatype card_event =
    AssetCreated uint256 address string
  | AssetTransferred uint256 address address

text \<open>
  The storage of the card contract: holder and approved operator of each token, the
  metadata reference, \<open>_nextTokenId\<close>, the pause switch, the administrator and the
  facts emitted so far.
\<close>

record PokemonCard =
  holder :: "uint256 \<Rightarrow> address option"
  operator :: "uint256 \<Rightarrow> address option"
  metadata :: "uint256 \<Rightarrow> string option"
  nextTokenId :: uint256
  cardPaused :: bool
  cardOwner :: address
  cardLog :: "card_event list"

text \<open>
  Modelled from the spec: the ERC721 base contract that PokemonCard inherits, and that
  PokemonSwap calls through \<open>IERC721\<close>, is a library outside the sources. \<open>ownerOf\<close>
  is the specification's \<open>currentHolder\<close>: it fails with \<open>UnknownAsset\<close> for an id
  that has no holder.
\<close>

definition ownerOf :: "PokemonCard \<Rightarrow> uint256 \<Rightarrow> error + address" where
  "ownerOf c tokenId = (case holder c tokenId of None \<Rightarrow> Inl UnknownAsset | Some a \<Rightarrow> Inr a)"

text \<open>
  Modelled from the spec: \<open>getApproved\<close> is the specification's \<open>authorizedOperator\<close>,
  an account or none.
\<close>

definition getApproved :: "PokemonCard \<Rightarrow> uint256 \<Rightarrow> address option" where
  "getApproved c tokenId = operator c tokenId"

text \<open>
  Modelled from the spec: \<open>approve\<close> is the specification's \<open>setOperator\<close>; only the
  current holder may call it.
\<close>

definition approve :: "address \<Rightarrow> address \<Rightarrow> uint256 \<Rightarrow> PokemonCard \<Rightarrow> error + PokemonCard" where
  "approve sender to tokenId c =
     (case ownerOf c tokenId of
        Inl e \<Rightarrow> Inl e
      | Inr h \<Rightarrow>
          if sender \<noteq> h then Inl NotHolder
          else Inr (c\<lparr>operator := (operator c)(tokenId \<mapsto> to)\<rparr>))"

text \<open>
  Modelled from the spec: \<open>transferFrom\<close> is the specification's \<open>transfer\<close>. It fails
  with \<open>NotHolder\<close> unless \<open>from\<close> is the current holder, with \<open>NotAuthorized\<close> unless
  the caller is \<open>from\<close> or the approved operator; on success the holder becomes \<open>to\<close>,
  the operator is cleared and a transfer fact is emitted. It makes no call to the
  receiving account.
\<close>

definition transferFrom ::
  "address \<Rightarrow> address \<Rightarrow> address \<Rightarrow> uint256 \<Rightarrow> PokemonCard \<Rightarrow> error + PokemonCard" where
  "transferFrom sender from to tokenId c =
     (case ownerOf c tokenId of
        Inl e \<Rightarrow> Inl e
      | Inr h \<Rightarrow>
          if from \<noteq> h then Inl NotHolder
          else if sender \<noteq> from \<and> getApproved c tokenId \<noteq> Some sender then Inl NotAuthorized
          else Inr (c\<lparr>holder := (holder c)(tokenId \<mapsto> to),
                      operator := (operator c)(tokenId := None),
                      cardLog := cardLog c @ [AssetTransferred tokenId from to]\<rparr>))"

text \<open>
  Modelled from the spec: \<open>_safeMint(to, tokenId)\<close> followed by
  \<open>_setTokenURI(tokenId, uri)\<close>, functions of the ERC721 library, which is outside the
  sources. Together they are the effect of the specification's \<open>create\<close> on a given
  id: the asset gets its holder and its metadata reference, and a creation fact is
  emitted. The library refuses the zero address as recipient and an id that has a holder
  already, and, as the comment in PokemonCard says, it "checks for ERC721Receiver":
  \<open>accepted\<close> tells whether the recipient passes that check (an account without code,
  or a contract that implements the receiver hook). What the hook of such a contract
  does beyond answering is not modelled.
\<close>

definition create ::
  "bool \<Rightarrow> address \<Rightarrow> uint256 \<Rightarrow> string \<Rightarrow> PokemonCard \<Rightarrow> error + PokemonCard" where
  "create accepted to tokenId uri c =
     (if to = 0 then Inl ZeroRecipient
      else if holder c tokenId \<noteq> None then Inl AssetExists
      else if \<not> accepted then Inl NotReceiver
      else Inr (c\<lparr>holder := (holder c)(tokenId \<mapsto> to),
                  metadata := (metadata c)(tokenId \<mapsto> uri),
                  cardLog := cardLog c @ [AssetCreated tokenId to uri]\<rparr>))"

text \<open>
  \<open>mint\<close> of PokemonCard: guarded by \<open>whenNotPaused\<close>; the asset is created
  under \<open>_nextTokenId\<close>, then \<open>_nextTokenId\<close> is incremented (checked).
\<close>

definition mint :: "bool \<Rightarrow> address \<Rightarrow> string \<Rightarrow> PokemonCard \<Rightarrow> error + PokemonCard" where
  "mint accepted to uri c =
     (if cardPaused c then Inl SystemPaused
      else case create accepted to (nextTokenId c) uri c of
        Inl e \<Rightarrow> Inl e
      | Inr c1 \<Rightarrow>
          if nextTokenId c1 = - 1 then Inl Overflow
          else Inr (c1\<lparr>nextTokenId := nextTokenId c1 + 1\<rparr>))"

text \<open>
  \<open>pause\<close> and \<open>unpause\<close> of PokemonCard. Modelled from the spec: \<open>onlyOwner\<close>,
  \<open>_pause\<close> and \<open>_unpause\<close> come from the Ownable and Pausable libraries, which
  are outside the sources; the switch is restricted to the administrator, \<open>_pause\<close>
  requires the contract not to be paused and \<open>_unpause\<close> requires it to be paused.
\<close>

definition cardPause :: "address \<Rightarrow> PokemonCard \<Rightarrow> error + PokemonCard" where
  "cardPause sender c =
     (if sender \<noteq> cardOwner c then Inl NotAdministrator
      else if cardPaused c then Inl SystemPaused
      else Inr (c\<lparr>cardPaused := True\<rparr>))"

definition cardUnpause :: "address \<Rightarrow> PokemonCard \<Rightarrow> error + PokemonCard" where
  "cardUnpause sender c =
     (if sender \<noteq> cardOwner c then Inl NotAdministrator
      else if \<not> cardPaused c then Inl NotPaused
      else Inr (c\<lparr>cardPaused := False\<rparr>))"

text \<open>The card contract after its constructor: ids start at 1.\<close>

definition newCard :: "address \<Rightarrow> PokemonCard" where
  "newCard deployer =
     \<lparr>holder = Map.empty, operator = Map.empty, metadata = Map.empty, nextTokenId = 1,
      cardPaused = False, cardOwner = deployer, cardLog = []\<rparr>"

section \<open>The swap coordinator (PokemonSwap)\<close>

record Swap =
  tokenAOwner :: address
  tokenA :: uint256
  tokenBOwner :: address
  tokenB :: uint256
  executed :: bool

text \<open>What an unset or deleted entry of the \<open>swaps\<close> mapping reads as.\<close>

definition zeroSwap :: Swap where
  "zeroSwap = \<lparr>tokenAOwner = 0, tokenA = 0, tokenBOwner = 0, tokenB = 0, executed = False\<rparr>"

datatype swap_event =
    SwapCreated uint256 address uint256 address uint256
  | SwapExecuted uint256 address address
  | SwapCancelled uint256 address

text \<open>
  The state a call of the coordinator runs in: \<open>pokemonCard\<close> is the card contract
  behind the coordinator's immutable reference, \<open>self\<close> is \<open>address(this)\<close>,
  \<open>swaps\<close> and \<open>nextSwapId\<close> are the storage variables of that name, \<open>paused\<close>,
  \<open>owner\<close> and \<open>entered\<close> are the storage of Pausable, Ownable and ReentrancyGuard
  (\<open>entered\<close> is true while a \<open>nonReentrant\<close> function runs), and \<open>swapLog\<close> holds
  the events emitted so far.
\<close>

record PokemonSwap =
  pokemonCard :: PokemonCard
  self :: address
  swaps :: "uint256 \<Rightarrow> Swap"
  nextSwapId :: uint256
  paused :: bool
  owner :: address
  entered :: bool
  swapLog :: "swap_event list"

text \<open>
  Modelled from the spec: the modifier \<open>whenNotPaused\<close> of the Pausable library, which
  is outside the sources. While the coordinator is paused the call fails with
  \<open>SystemPaused\<close>.
\<close>

definition whenNotPaused :: "(PokemonSwap \<Rightarrow> error + 'a) \<Rightarrow> PokemonSwap \<Rightarrow> error + 'a" where
  "whenNotPaused body s = (if paused s then Inl SystemPaused else body s)"

text \<open>
  Modelled from the spec: the modifier \<open>nonReentrant\<close> of the ReentrancyGuard library,
  which is outside the sources; it is the mutex of the specification's design notes. A
  call that arrives while another \<open>nonReentrant\<close> function is running fails; otherwise
  the lock is taken, the body runs, and the lock is released when the body has returned.
\<close>

definition unlock :: "PokemonSwap \<times> 'a \<Rightarrow> PokemonSwap \<times> 'a" where
  "unlock r = ((fst r)\<lparr>entered := False\<rparr>, snd r)"

definition nonReentrant ::
  "(PokemonSwap \<Rightarrow> error + PokemonSwap \<times> 'a) \<Rightarrow> PokemonSwap \<Rightarrow> error + PokemonSwap \<times> 'a" where
  "nonReentrant body s =
     (if entered s then Inl ReentrantCall
      else map_sum id unlock (body (s\<lparr>entered := True\<rparr>)))"

text \<open>
  Modelled from the spec: the modifier \<open>onlyOwner\<close> of the Ownable library, which is
  outside the sources: the call is restricted to the designated administrator.
\<close>

definition onlyOwner :: "address \<Rightarrow> (PokemonSwap \<Rightarrow> error + 'a) \<Rightarrow> PokemonSwap \<Rightarrow> error + 'a" where
  "onlyOwner sender body s = (if sender \<noteq> owner s then Inl NotAdministrator else body s)"

text \<open>
  The body of \<open>createSwap\<close>: the four \<open>require\<close>s in their order, the checked
  \<open>nextSwapId++\<close>, the new record, the transfer of \<open>tokenA\<close> into escrow by the
  coordinator, the event.
\<close>

definition createSwap_body ::
  "address \<Rightarrow> uint256 \<Rightarrow> address \<Rightarrow> uint256 \<Rightarrow> PokemonSwap \<Rightarrow> error + PokemonSwap \<times> uint256" where
  "createSwap_body sender tokA ownB tokB s =
     (if tokA = tokB then Inl IdenticalAssets
      else case ownerOf (pokemonCard s) tokA of
        Inl e \<Rightarrow> Inl e
      | Inr ha \<Rightarrow>
          if ha \<noteq> sender then Inl NotOwner
          else (case ownerOf (pokemonCard s) tokB of
            Inl e \<Rightarrow> Inl e
          | Inr hb \<Rightarrow>
              if hb \<noteq> ownB then Inl CounterpartyMismatch
              else if getApproved (pokemonCard s) tokA \<noteq> Some (self s) then Inl NotApproved
              else if nextSwapId s = - 1 then Inl Overflow
              else
                let swapId = nextSwapId s;
                    s1 = s\<lparr>nextSwapId := nextSwapId s + 1\<rparr>;
                    s2 = s1\<lparr>swaps := (swaps s1)(swapId :=
                           \<lparr>tokenAOwner = sender, tokenA = tokA, tokenBOwner = ownB,
                            tokenB = tokB, executed = False\<rparr>)\<rparr>
                in (case transferFrom (self s2) sender (self s2) tokA (pokemonCard s2) of
                     Inl e \<Rightarrow> Inl e
                   | Inr c \<Rightarrow>
                       Inr (s2\<lparr>pokemonCard := c,
                               swapLog := swapLog s2 @ [SwapCreated swapId sender tokA ownB tokB]\<rparr>,
                            swapId))))"

definition createSwap ::
  "address \<Rightarrow> uint256 \<Rightarrow> address \<Rightarrow> uint256 \<Rightarrow> PokemonSwap \<Rightarrow> error + PokemonSwap \<times> uint256" where
  "createSwap sender tokA ownB tokB =
     whenNotPaused (nonReentrant (createSwap_body sender tokA ownB tokB))"

text \<open>
  The body of \<open>acceptSwap\<close>. \<open>swap\<close> is a storage reference, so every field is read
  from the \<open>swaps\<close> mapping of the state current at that statement. The three transfers
  are made by the coordinator; \<open>executed\<close> is set after them.
\<close>

definition acceptSwap_body :: "address \<Rightarrow> uint256 \<Rightarrow> PokemonSwap \<Rightarrow> error + PokemonSwap \<times> unit" where
  "acceptSwap_body sender swapId s =
     (if executed (swaps s swapId) then Inl SwapNotPending
      else if sender \<noteq> tokenBOwner (swaps s swapId) then Inl NotCounterparty
      else if getApproved (pokemonCard s) (tokenB (swaps s swapId)) \<noteq> Some (self s)
        then Inl NotApproved
      else case transferFrom (self s) (tokenBOwner (swaps s swapId)) (self s)
                  (tokenB (swaps s swapId)) (pokemonCard s) of
        Inl e \<Rightarrow> Inl e
      | Inr c1 \<Rightarrow>
          (case transferFrom (self s) (self s) (tokenBOwner (swaps s swapId))
                 (tokenA (swaps s swapId)) c1 of
            Inl e \<Rightarrow> Inl e
          | Inr c2 \<Rightarrow>
              (case transferFrom (self s) (self s) (tokenAOwner (swaps s swapId))
                     (tokenB (swaps s swapId)) c2 of
                Inl e \<Rightarrow> Inl e
              | Inr c3 \<Rightarrow>
                  let s1 = s\<lparr>pokemonCard := c3\<rparr>;
                      s2 = s1\<lparr>swaps := (swaps s1)(swapId := (swaps s1 swapId)\<lparr>executed := True\<rparr>)\<rparr>
                  in Inr (s2\<lparr>swapLog := swapLog s2 @
                            [SwapExecuted swapId (tokenAOwner (swaps s2 swapId))
                               (tokenBOwner (swaps s2 swapId))]\<rparr>, ()))))"

definition acceptSwap :: "address \<Rightarrow> uint256 \<Rightarrow> PokemonSwap \<Rightarrow> error + PokemonSwap \<times> unit" where
  "acceptSwap sender swapId = whenNotPaused (nonReentrant (acceptSwap_body sender swapId))"

text \<open>
  The body of \<open>cancelSwap\<close>. The record is deleted before the event is emitted, and the
  event's owner field is read through the storage reference after the deletion.
\<close>

definition cancelSwap_body :: "address \<Rightarrow> uint256 \<Rightarrow> PokemonSwap \<Rightarrow> error + PokemonSwap \<times> unit" where
  "cancelSwap_body sender swapId s =
     (if executed (swaps s swapId) then Inl SwapNotPending
      else if sender \<noteq> tokenAOwner (swaps s swapId) then Inl NotProposer
      else case transferFrom (self s) (self s) (tokenAOwner (swaps s swapId))
                  (tokenA (swaps s swapId)) (pokemonCard s) of
        Inl e \<Rightarrow> Inl e
      | Inr c \<Rightarrow>
          let s1 = s\<lparr>pokemonCard := c\<rparr>;
              s2 = s1\<lparr>swaps := (swaps s1)(swapId := zeroSwap)\<rparr>
          in Inr (s2\<lparr>swapLog := swapLog s2 @
                    [SwapCancelled swapId (tokenAOwner (swaps s2 swapId))]\<rparr>, ()))"

definition cancelSwap :: "address \<Rightarrow> uint256 \<Rightarrow> PokemonSwap \<Rightarrow> error + PokemonSwap \<times> unit" where
  "cancelSwap sender swapId = whenNotPaused (nonReentrant (cancelSwap_body sender swapId))"

text \<open>
  \<open>pause\<close> and \<open>unpause\<close>: \<open>onlyOwner\<close>, then \<open>_pause\<close> and \<open>_unpause\<close>.
  Modelled from the spec: the two come from the Pausable library, which is outside the
  sources; they set and clear the pause switch, \<open>_pause\<close> requires the contract not to
  be paused and \<open>_unpause\<close> requires it to be paused.
\<close>

definition pause :: "address \<Rightarrow> PokemonSwap \<Rightarrow> error + PokemonSwap \<times> unit" where
  "pause sender = onlyOwner sender (whenNotPaused (\<lambda>s. Inr (s\<lparr>paused := True\<rparr>, ())))"

definition unpause :: "address \<Rightarrow> PokemonSwap \<Rightarrow> error + PokemonSwap \<times> unit" where
  "unpause sender =
     onlyOwner sender (\<lambda>s. if \<not> paused s then Inl NotPaused else Inr (s\<lparr>paused := False\<rparr>, ()))"

text \<open>
  The coordinator after its constructor, deployed at address \<open>this\<close> by \<open>deployer\<close>
  for the card contract \<open>c\<close>: no swaps, \<open>nextSwapId = 1\<close>.
\<close>

definition newSwap :: "address \<Rightarrow> address \<Rightarrow> PokemonCard \<Rightarrow> PokemonSwap" where
  "newSwap this deployer c =
     \<lparr>pokemonCard = c, self = this, swaps = (\<lambda>_. zeroSwap), nextSwapId = 1, paused = False,
      owner = deployer, entered = False, swapLog = []\<rparr>"

section \<open>Transactions\<close>

text \<open>
  A transaction is one external call, with its sender as first argument; \<open>Mint\<close>
  carries, after the recipient, whether the recipient passes the receiver check. A call
  that reverts leaves the storage and the logs of both contracts as they were: \<open>exec\<close>
  is the state after the transaction, \<open>outcome\<close> the failure, if any.
\<close>

datatype call =
    Mint address address bool string
  | Approve address address uint256
  | TransferFrom address address address uint256
  | CardPause address
  | CardUnpause address
  | CreateSwap address uint256 address uint256
  | AcceptSwap address uint256
  | CancelSwap address uint256
  | Pause address
  | Unpause address

definition onCard :: "(PokemonCard \<Rightarrow> error + PokemonCard) \<Rightarrow> PokemonSwap \<Rightarrow> error + PokemonSwap" where
  "onCard f s = map_sum id (\<lambda>c. s\<lparr>pokemonCard := c\<rparr>) (f (pokemonCard s))"

fun perform :: "call \<Rightarrow> PokemonSwap \<Rightarrow> error + PokemonSwap" where
  "perform (Mint sender to accepted uri) s = onCard (mint accepted to uri) s"
| "perform (Approve sender to tokenId) s = onCard (approve sender to tokenId) s"
| "perform (TransferFrom sender from to tokenId) s = onCard (transferFrom sender from to tokenId) s"
| "perform (CardPause sender) s = onCard (cardPause sender) s"
| "perform (CardUnpause sender) s = onCard (cardUnpause sender) s"
| "perform (CreateSwap sender tokA ownB tokB) s = map_sum id fst (createSwap sender tokA ownB tokB s)"
| "perform (AcceptSwap sender swapId) s = map_sum id fst (acceptSwap sender swapId s)"
| "perform (CancelSwap sender swapId) s = map_sum id fst (cancelSwap sender swapId s)"
| "perform (Pause sender) s = map_sum id fst (pause sender s)"
| "perform (Unpause sender) s = map_sum id fst (unpause sender s)"

definition exec :: "PokemonSwap \<Rightarrow> call \<Rightarrow> PokemonSwap" where
  "exec s c = (case perform c s of Inl e \<Rightarrow> s | Inr s' \<Rightarrow> s')"

definition outcome :: "PokemonSwap \<Rightarrow> call \<Rightarrow> error option" where
  "outcome s c = (case perform c s of Inl e \<Rightarrow> Some e | Inr s' \<Rightarrow> None)"

text \<open>A history is a list of transactions, run in order from the two constructors.\<close>

definition deployed :: "address \<Rightarrow> address \<Rightarrow> PokemonSwap" where
  "deployed this deployer = newSwap this deployer (newCard deployer)"

definition run :: "PokemonSwap \<Rightarrow> call list \<Rightarrow> PokemonSwap" where
  "run s cs = foldl exec s cs"

text \<open>The sender of a transaction.\<close>

fun caller_of :: "call \<Rightarrow> address" where
  "caller_of (Mint sender to accepted uri) = sender"
| "caller_of (Approve sender to tokenId) = sender"
| "caller_of (TransferFrom sender from to tokenId) = sender"
| "caller_of (CardPause sender) = sender"
| "caller_of (CardUnpause sender) = sender"
| "caller_of (CreateSwap sender tokA ownB tokB) = sender"
| "caller_of (AcceptSwap sender swapId) = sender"
| "caller_of (CancelSwap sender swapId) = sender"
| "caller_of (Pause sender) = sender"
| "caller_of (Unpause sender) = sender"

text \<open>A history all of whose transactions come from a sender other than the zero address.\<close>

definition external :: "call list \<Rightarrow> bool" where
  "external cs = list_all (\<lambda>c. caller_of c \<noteq> 0) cs"

section \<open>Scenarios\<close>

text \<open>
  The scenario of the specification. The deployer 9 deploys both contracts, the
  coordinator at address 100. Account 1 mints asset 1, account 2 mints asset 2; account 1
  approves the coordinator for asset 1 and proposes asset 1 for asset 2 of account 2.
\<close>

definition offered :: PokemonSwap where
  "offered = run (deployed 100 9)
     [Mint 1 1 True ''pikachu'', Mint 2 2 True ''bulbasaur'', Approve 1 100 1, CreateSwap 1 1 2 2]"

text \<open>Account 2 then approves the coordinator for asset 2.\<close>

definition agreed :: PokemonSwap where
  "agreed = exec offered (Approve 2 100 2)"

text \<open>Account 2 then accepts.\<close>

definition settled :: PokemonSwap where
  "settled = exec agreed (AcceptSwap 2 1)"

text \<open>Instead, account 2 gives asset 2 away to account 3 after the proposal.\<close>

definition disposed :: PokemonSwap where
  "disposed = exec offered (TransferFrom 2 2 3 2)"

text \<open>Instead, account 1 withdraws the proposal.\<close>

definition withdrawn :: PokemonSwap where
  "withdrawn = exec offered (CancelSwap 1 1)"

text \<open>Instead, the administrator pauses the coordinator.\<close>

definition halted :: PokemonSwap where
  "halted = exec offered (Pause 9)"

section \<open>Invariant of the coordinator's storage\<close>

text \<open>
  In every state of a history: \<open>nextSwapId\<close> is not 0, no call is in progress, the
  entries of \<open>swaps\<close> at 0 and from \<open>nextSwapId\<close> on are unset, and a set entry has
  two different tokens.
\<close>

definition wf :: "PokemonSwap \<Rightarrow> bool" where
  "wf s \<longleftrightarrow> nextSwapId s \<noteq> 0 \<and> \<not> entered s \<and> swaps s 0 = zeroSwap \<and>
     (\<forall>i. nextSwapId s \<le> i \<longrightarrow> swaps s i = zeroSwap) \<and>
     (\<forall>i. swaps s i = zeroSwap \<or> tokenA (swaps s i) \<noteq> tokenB (swaps s i))"

section \<open>Results of the operations\<close>

lemma transferFrom_Inr:
  "transferFrom sender from to t c = Inr c' \<longleftrightarrow>
     holder c t = Some from \<and> (sender = from \<or> operator c t = Some sender) \<and>
     c' = c\<lparr>holder := (holder c)(t \<mapsto> to), operator := (operator c)(t := None),
            cardLog := cardLog c @ [AssetTransferred t from to]\<rparr>"
  by (auto simp: transferFrom_def ownerOf_def getApproved_def split: option.splits)

lemma whenNotPaused_Inr: "whenNotPaused body s = Inr r \<longleftrightarrow> \<not> paused s \<and> body s = Inr r"
  by (simp add: whenNotPaused_def)

lemma nonReentrant_Inr:
  "nonReentrant body s = Inr r \<longleftrightarrow>
     \<not> entered s \<and> (\<exists>r'. body (s\<lparr>entered := True\<rparr>) = Inr r' \<and> r = unlock r')"
  by (cases "body (s\<lparr>entered := True\<rparr>)") (auto simp: nonReentrant_def)

lemma createSwap_Inr:
  assumes "createSwap sender tokA ownB tokB s = Inr (s', i)"
  shows "\<not> paused s" "\<not> entered s" "tokA \<noteq> tokB"
    "holder (pokemonCard s) tokA = Some sender"
    "holder (pokemonCard s) tokB = Some ownB"
    "operator (pokemonCard s) tokA = Some (self s)"
    "nextSwapId s \<noteq> - 1" "i = nextSwapId s"
    "s' = s\<lparr>pokemonCard := (pokemonCard s)\<lparr>holder := (holder (pokemonCard s))(tokA \<mapsto> self s),
               operator := (operator (pokemonCard s))(tokA := None),
               cardLog := cardLog (pokemonCard s) @ [AssetTransferred tokA sender (self s)]\<rparr>,
             swaps := (swaps s)(nextSwapId s := \<lparr>tokenAOwner = sender, tokenA = tokA,
               tokenBOwner = ownB, tokenB = tokB, executed = False\<rparr>),
             nextSwapId := nextSwapId s + 1,
             swapLog := swapLog s @ [SwapCreated (nextSwapId s) sender tokA ownB tokB]\<rparr>"
  using assms
  by (auto simp: createSwap_def whenNotPaused_Inr nonReentrant_Inr createSwap_body_def
      ownerOf_def getApproved_def transferFrom_Inr unlock_def Let_def
      split: option.splits if_splits sum.splits)

lemma acceptSwap_Inr:
  assumes "acceptSwap sender swapId s = Inr (s', u)"
    and "tokenA (swaps s swapId) \<noteq> tokenB (swaps s swapId)"
  shows "\<not> paused s" "\<not> entered s" "\<not> executed (swaps s swapId)"
    "sender = tokenBOwner (swaps s swapId)"
    "holder (pokemonCard s) (tokenB (swaps s swapId)) = Some sender"
    "holder (pokemonCard s) (tokenA (swaps s swapId)) = Some (self s)"
    "operator (pokemonCard s) (tokenB (swaps s swapId)) = Some (self s)"
    "s' = s\<lparr>pokemonCard := (pokemonCard s)\<lparr>
               holder := (holder (pokemonCard s))
                 (tokenA (swaps s swapId) \<mapsto> sender,
                  tokenB (swaps s swapId) \<mapsto> tokenAOwner (swaps s swapId)),
               operator := (operator (pokemonCard s))
                 (tokenA (swaps s swapId) := None, tokenB (swaps s swapId) := None),
               cardLog := cardLog (pokemonCard s) @
                 [AssetTransferred (tokenB (swaps s swapId)) sender (self s),
                  AssetTransferred (tokenA (swaps s swapId)) (self s) sender,
                  AssetTransferred (tokenB (swaps s swapId)) (self s) (tokenAOwner (swaps s swapId))]\<rparr>,
             swaps := (swaps s)(swapId := (swaps s swapId)\<lparr>executed := True\<rparr>),
             swapLog := swapLog s @ [SwapExecuted swapId (tokenAOwner (swaps s swapId)) sender]\<rparr>"
  using assms
  by (auto simp: acceptSwap_def whenNotPaused_Inr nonReentrant_Inr acceptSwap_body_def
      getApproved_def transferFrom_Inr unlock_def Let_def fun_upd_twist
      split: option.splits if_splits sum.splits)

lemma cancelSwap_Inr:
  assumes "cancelSwap sender swapId s = Inr (s', u)"
  shows "\<not> paused s" "\<not> entered s" "\<not> executed (swaps s swapId)"
    "sender = tokenAOwner (swaps s swapId)"
    "holder (pokemonCard s) (tokenA (swaps s swapId)) = Some (self s)"
    "s' = s\<lparr>pokemonCard := (pokemonCard s)\<lparr>
               holder := (holder (pokemonCard s))(tokenA (swaps s swapId) \<mapsto> sender),
               operator := (operator (pokemonCard s))(tokenA (swaps s swapId) := None),
               cardLog := cardLog (pokemonCard s) @
                 [AssetTransferred (tokenA (swaps s swapId)) (self s) sender]\<rparr>,
             swaps := (swaps s)(swapId := zeroSwap),
             swapLog := swapLog s @ [SwapCancelled swapId 0]\<rparr>"
  using assms
  by (auto simp: cancelSwap_def whenNotPaused_Inr nonReentrant_Inr cancelSwap_body_def
      getApproved_def transferFrom_Inr unlock_def Let_def zeroSwap_def
      split: option.splits if_splits sum.splits)

lemma onCard_Inr: "onCard f s = Inr s' \<longleftrightarrow> (\<exists>c. f (pokemonCard s) = Inr c \<and> s' = s\<lparr>pokemonCard := c\<rparr>)"
  by (cases "f (pokemonCard s)") (auto simp: onCard_def)

lemma pause_Inr: "pause sender s = Inr (s', u) \<longleftrightarrow> sender = owner s \<and> \<not> paused s \<and> s' = s\<lparr>paused := True\<rparr>"
  by (auto simp: pause_def onlyOwner_def whenNotPaused_def)

lemma unpause_Inr: "unpause sender s = Inr (s', u) \<longleftrightarrow> sender = owner s \<and> paused s \<and> s' = s\<lparr>paused := False\<rparr>"
  by (auto simp: unpause_def onlyOwner_def)

lemma zeroSwap_fields [simp]:
  "tokenAOwner zeroSwap = 0" "tokenBOwner zeroSwap = 0" "tokenA zeroSwap = 0"
  "tokenB zeroSwap = 0" "\<not> executed zeroSwap"
  by (simp_all add: zeroSwap_def)

lemma exec_failed: "perform c s = Inl e \<Longrightarrow> exec s c = s"
  by (simp add: exec_def)

text \<open>What a call on an unset entry returns.\<close>

lemma acceptSwap_unset:
  assumes "swaps s i = zeroSwap" "sender \<noteq> 0" "\<not> entered s"
  shows "acceptSwap sender i s = Inl (if paused s then SystemPaused else NotCounterparty)"
  using assms by (simp add: acceptSwap_def whenNotPaused_def nonReentrant_def acceptSwap_body_def)

lemma cancelSwap_unset:
  assumes "swaps s i = zeroSwap" "sender \<noteq> 0" "\<not> entered s"
  shows "cancelSwap sender i s = Inl (if paused s then SystemPaused else NotProposer)"
  using assms by (simp add: cancelSwap_def whenNotPaused_def nonReentrant_def cancelSwap_body_def)

lemma acceptSwap_executed:
  assumes "executed (swaps s i)" "\<not> entered s"
  shows "acceptSwap sender i s = Inl (if paused s then SystemPaused else SwapNotPending)"
  using assms by (simp add: acceptSwap_def whenNotPaused_def nonReentrant_def acceptSwap_body_def)

lemma cancelSwap_executed:
  assumes "executed (swaps s i)" "\<not> entered s"
  shows "cancelSwap sender i s = Inl (if paused s then SystemPaused else SwapNotPending)"
  using assms by (simp add: cancelSwap_def whenNotPaused_def nonReentrant_def cancelSwap_body_def)

section \<open>Failures of the operations\<close>

lemma outcome_createSwap:
  "outcome s (CreateSwap sender tokA ownB tokB) =
     (if paused s then Some SystemPaused
      else if entered s then Some ReentrantCall
      else if tokA = tokB then Some IdenticalAssets
      else if holder (pokemonCard s) tokA = None then Some UnknownAsset
      else if holder (pokemonCard s) tokA \<noteq> Some sender then Some NotOwner
      else if holder (pokemonCard s) tokB = None then Some UnknownAsset
      else if holder (pokemonCard s) tokB \<noteq> Some ownB then Some CounterpartyMismatch
      else if getApproved (pokemonCard s) tokA \<noteq> Some (self s) then Some NotApproved
      else if nextSwapId s = - 1 then Some Overflow
      else None)"
  by (auto simp: outcome_def createSwap_def whenNotPaused_def nonReentrant_def createSwap_body_def
      transferFrom_def ownerOf_def getApproved_def Let_def split: option.splits)

lemma outcome_acceptSwap:
  "outcome s (AcceptSwap sender i) =
     (if paused s then Some SystemPaused
      else if entered s then Some ReentrantCall
      else if executed (swaps s i) then Some SwapNotPending
      else if sender \<noteq> tokenBOwner (swaps s i) then Some NotCounterparty
      else if getApproved (pokemonCard s) (tokenB (swaps s i)) \<noteq> Some (self s)
        then Some NotApproved
      else if holder (pokemonCard s) (tokenB (swaps s i)) = None then Some UnknownAsset
      else if holder (pokemonCard s) (tokenB (swaps s i)) \<noteq> Some sender then Some NotHolder
      else if tokenA (swaps s i) = tokenB (swaps s i)
        then (if sender = self s then None else Some NotHolder)
      else if holder (pokemonCard s) (tokenA (swaps s i)) = None then Some UnknownAsset
      else if holder (pokemonCard s) (tokenA (swaps s i)) \<noteq> Some (self s) then Some NotHolder
      else None)"
  by (auto simp: outcome_def acceptSwap_def whenNotPaused_def nonReentrant_def acceptSwap_body_def
      transferFrom_def ownerOf_def getApproved_def Let_def split: option.splits)

lemma outcome_cancelSwap:
  "outcome s (CancelSwap sender i) =
     (if paused s then Some SystemPaused
      else if entered s then Some ReentrantCall
      else if executed (swaps s i) then Some SwapNotPending
      else if sender \<noteq> tokenAOwner (swaps s i) then Some NotProposer
      else if holder (pokemonCard s) (tokenA (swaps s i)) = None then Some UnknownAsset
      else if holder (pokemonCard s) (tokenA (swaps s i)) \<noteq> Some (self s) then Some NotHolder
      else None)"
  by (auto simp: outcome_def cancelSwap_def whenNotPaused_def nonReentrant_def cancelSwap_body_def
      transferFrom_def ownerOf_def getApproved_def Let_def split: option.splits)

lemma outcome_mint:
  "outcome s (Mint sender to accepted uri) =
     (if cardPaused (pokemonCard s) then Some SystemPaused
      else if to = 0 then Some ZeroRecipient
      else if holder (pokemonCard s) (nextTokenId (pokemonCard s)) \<noteq> None then Some AssetExists
      else if \<not> accepted then Some NotReceiver
      else if nextTokenId (pokemonCard s) = - 1 then Some Overflow
      else None)"
  by (auto simp: outcome_def onCard_def mint_def create_def)

lemma outcome_transferFrom:
  "outcome s (TransferFrom sender from to tokenId) =
     (if holder (pokemonCard s) tokenId = None then Some UnknownAsset
      else if holder (pokemonCard s) tokenId \<noteq> Some from then Some NotHolder
      else if sender \<noteq> from \<and> getApproved (pokemonCard s) tokenId \<noteq> Some sender
        then Some NotAuthorized
      else None)"
  by (auto simp: outcome_def onCard_def transferFrom_def ownerOf_def getApproved_def
      split: option.splits)


lemma never_raised:
  "outcome s c \<noteq> Some UnknownSwap" "outcome s c \<noteq> Some OwnershipChanged"
proof -
  have "outcome s c \<noteq> Some UnknownSwap \<and> outcome s c \<noteq> Some OwnershipChanged"
  proof (cases c)
    case (Mint sender rcp accepted uri)
    then show ?thesis by (simp add: outcome_mint)
  next
    case (Approve sender opr tokenId)
    then show ?thesis
      by (simp add: outcome_def onCard_def approve_def ownerOf_def split: option.splits)
  next
    case (TransferFrom sender src dst tokenId)
    then show ?thesis by (simp add: outcome_transferFrom)
  next
    case (CardPause sender)
    then show ?thesis by (simp add: outcome_def onCard_def cardPause_def)
  next
    case (CardUnpause sender)
    then show ?thesis by (simp add: outcome_def onCard_def cardUnpause_def)
  next
    case (CreateSwap sender tokA ownB tokB)
    then show ?thesis by (simp add: outcome_createSwap)
  next
    case (AcceptSwap sender i)
    then show ?thesis by (simp add: outcome_acceptSwap)
  next
    case (CancelSwap sender i)
    then show ?thesis by (simp add: outcome_cancelSwap)
  next
    case (Pause sender)
    then show ?thesis by (simp add: outcome_def pause_def onlyOwner_def whenNotPaused_def)
  next
    case (Unpause sender)
    then show ?thesis by (simp add: outcome_def unpause_def onlyOwner_def)
  qed
  then show "outcome s c \<noteq> Some UnknownSwap" "outcome s c \<noteq> Some OwnershipChanged"
    by simp_all
qed

lemma failed_unchanged:
  assumes "outcome s c \<noteq> None"
  shows "exec s c = s"
  using assms by (cases "perform c s") (simp_all add: outcome_def exec_def)

lemma acceptSwap_flips:
  assumes "acceptSwap sender i s = Inr (s', u)"
  shows "\<not> executed (swaps s i)" "tokenBOwner (swaps s i) = sender" "executed (swaps s' i)"
    "cardLog (pokemonCard s') = cardLog (pokemonCard s) @
       [AssetTransferred (tokenB (swaps s i)) sender (self s),
        AssetTransferred (tokenA (swaps s i)) (self s) sender,
        AssetTransferred (tokenB (swaps s i)) (self s) (tokenAOwner (swaps s i))]"
  using assms
  by (auto simp: acceptSwap_def whenNotPaused_Inr nonReentrant_Inr acceptSwap_body_def
      transferFrom_Inr unlock_def Let_def split: if_splits sum.splits)

lemma locked:
  assumes "entered s"
  shows "acceptSwap a i s = Inl (if paused s then SystemPaused else ReentrantCall)"
    "cancelSwap a i s = Inl (if paused s then SystemPaused else ReentrantCall)"
  using assms
  by (simp_all add: acceptSwap_def cancelSwap_def whenNotPaused_def nonReentrant_def)

section \<open>The invariant along a history\<close>

lemma word_succ_less:
  fixes n :: uint256
  assumes "n \<noteq> - 1"
  shows "n < n + 1"
  using assms inc_less_eq_iff [of n "n + 1"] by (simp add: not_le [symmetric] inc_less_eq_self_iff_eq)

lemma word_succ_nonzero:
  fixes n :: uint256
  assumes "n \<noteq> - 1"
  shows "n + 1 \<noteq> 0"
  using assms max_word_wrap by blast

lemma word_succ_le:
  fixes n i :: uint256
  assumes "n \<noteq> - 1" "n + 1 \<le> i"
  shows "n < i"
  using assms inc_less_eq_iff [of n i] by simp

lemma wf_deployed: "wf (deployed this d)"
  by (simp add: wf_def deployed_def newSwap_def)

lemma wf_card: "wf (s\<lparr>pokemonCard := c\<rparr>) = wf s"
  by (simp add: wf_def)

lemma wf_paused: "wf (s\<lparr>paused := b\<rparr>) = wf s"
  by (simp add: wf_def)

lemma wf_nonzero:
  assumes "wf s" "swaps s i \<noteq> zeroSwap"
  shows "i \<noteq> 0" "i < nextSwapId s" "tokenA (swaps s i) \<noteq> tokenB (swaps s i)"
  using assms by (auto simp: wf_def not_le [symmetric])

lemma wf_createSwap:
  assumes "wf s" "createSwap sender tokA ownB tokB s = Inr (s', i)"
  shows "wf s'"
proof -
  note r = createSwap_Inr [OF assms(2)]
  have n: "nextSwapId s \<noteq> 0" "\<not> entered s" using assms(1) by (simp_all add: wf_def)
  have lt: "\<And>j. nextSwapId s + 1 \<le> j \<Longrightarrow> nextSwapId s \<le> j \<and> j \<noteq> nextSwapId s"
    using word_succ_le [OF r(7)] by fastforce
  show ?thesis
    using assms(1) r(3) n lt word_succ_nonzero [OF r(7)]
    unfolding r(9) wf_def by (auto simp: zeroSwap_def)
qed

lemma wf_acceptSwap:
  assumes "wf s" "acceptSwap sender swapId s = Inr (s', u)" "sender \<noteq> 0"
  shows "wf s'" "swaps s swapId \<noteq> zeroSwap"
proof -
  have tb: "sender = tokenBOwner (swaps s swapId)"
    using assms(2)
    by (auto simp: acceptSwap_def whenNotPaused_Inr nonReentrant_Inr acceptSwap_body_def
        split: if_splits)
  with assms(3) show nz: "swaps s swapId \<noteq> zeroSwap" by auto
  note w = wf_nonzero [OF assms(1) nz]
  note r = acceptSwap_Inr [OF assms(2) w(3)]
  show "wf s'"
    using assms(1) w unfolding r(8) wf_def by (auto simp: zeroSwap_def)
qed

lemma wf_cancelSwap:
  assumes "wf s" "cancelSwap sender swapId s = Inr (s', u)"
  shows "wf s'"
  using assms(1) unfolding cancelSwap_Inr(6) [OF assms(2)] wf_def by auto

lemma wf_exec:
  assumes "wf s" "caller_of c \<noteq> 0"
  shows "wf (exec s c)"
proof (cases "perform c s")
  case (Inl e)
  then show ?thesis using assms(1) by (simp add: exec_def)
next
  case (Inr s')
  then have e: "exec s c = s'" by (simp add: exec_def)
  show ?thesis
  proof (cases c)
    case (CreateSwap sender tokA ownB tokB)
    with Inr obtain i where "createSwap sender tokA ownB tokB s = Inr (s', i)"
      by (cases "createSwap sender tokA ownB tokB s") auto
    then show ?thesis using wf_createSwap assms(1) e by simp
  next
    case (AcceptSwap sender swapId)
    with Inr have "acceptSwap sender swapId s = Inr (s', ())"
      by (cases "acceptSwap sender swapId s") auto
    then show ?thesis using wf_acceptSwap(1) assms AcceptSwap e by simp
  next
    case (CancelSwap sender swapId)
    with Inr have "cancelSwap sender swapId s = Inr (s', ())"
      by (cases "cancelSwap sender swapId s") auto
    then show ?thesis using wf_cancelSwap assms(1) e by simp
  next
    case (Pause sender)
    with Inr have "pause sender s = Inr (s', ())"
      by (cases "pause sender s") auto
    then show ?thesis using assms(1) e by (simp add: pause_Inr wf_paused)
  next
    case (Unpause sender)
    with Inr have "unpause sender s = Inr (s', ())"
      by (cases "unpause sender s") auto
    then show ?thesis using assms(1) e by (simp add: unpause_Inr wf_paused)
  qed (use Inr assms(1) e in \<open>auto simp: onCard_Inr wf_card\<close>)
qed

lemma run_Nil [simp]: "run s [] = s"
  by (simp add: run_def)

lemma run_Cons [simp]: "run s (c # cs) = run (exec s c) cs"
  by (simp add: run_def)

lemma external_Nil [simp]: "external []"
  by (simp add: external_def)

lemma external_Cons [simp]: "external (c # cs) \<longleftrightarrow> caller_of c \<noteq> 0 \<and> external cs"
  by (simp add: external_def)

lemma wf_run: "wf s \<Longrightarrow> external cs \<Longrightarrow> wf (run s cs)"
  by (induction cs arbitrary: s) (simp_all add: wf_exec)

lemma nextSwapId_exec: "nextSwapId s \<le> nextSwapId (exec s c)"
proof (cases "perform c s")
  case (Inl e)
  then show ?thesis by (simp add: exec_def)
next
  case (Inr s')
  then have e: "exec s c = s'" by (simp add: exec_def)
  show ?thesis
  proof (cases c)
    case (CreateSwap sender tokA ownB tokB)
    with Inr obtain i where "createSwap sender tokA ownB tokB s = Inr (s', i)"
      by (cases "createSwap sender tokA ownB tokB s") auto
    from createSwap_Inr(7,9) [OF this] show ?thesis
      using word_succ_less [of "nextSwapId s"] e by simp
  next
    case (AcceptSwap sender swapId)
    with Inr have "acceptSwap sender swapId s = Inr (s', ())"
      by (cases "acceptSwap sender swapId s") auto
    then show ?thesis using e
      by (auto simp: acceptSwap_def whenNotPaused_Inr nonReentrant_Inr acceptSwap_body_def
          unlock_def Let_def split: if_splits sum.splits)
  next
    case (CancelSwap sender swapId)
    with Inr have "cancelSwap sender swapId s = Inr (s', ())"
      by (cases "cancelSwap sender swapId s") auto
    from cancelSwap_Inr(6) [OF this] show ?thesis using e by simp
  next
    case (Pause sender)
    with Inr have "pause sender s = Inr (s', ())"
      by (cases "pause sender s") auto
    then show ?thesis using e by (simp add: pause_Inr)
  next
    case (Unpause sender)
    with Inr have "unpause sender s = Inr (s', ())"
      by (cases "unpause sender s") auto
    then show ?thesis using e by (simp add: unpause_Inr)
  qed (use Inr e in \<open>auto simp: onCard_Inr\<close>)
qed

lemma nextSwapId_run: "nextSwapId s \<le> nextSwapId (run s cs)"
proof (induction cs arbitrary: s)
  case Nil
  show ?case by simp
next
  case (Cons c cs)
  have "nextSwapId s \<le> nextSwapId (exec s c)" by (rule nextSwapId_exec)
  also have "\<dots> \<le> nextSwapId (run (exec s c) cs)" by (rule Cons.IH)
  finally show ?case by simp
qed

text \<open>An unset entry below \<open>nextSwapId\<close> stays unset.\<close>

lemma erased_exec:
  assumes "wf s" "caller_of c \<noteq> 0" "swaps s i = zeroSwap" "i < nextSwapId s"
  shows "swaps (exec s c) i = zeroSwap"
proof (cases "perform c s")
  case (Inl e)
  then show ?thesis using assms(3) by (simp add: exec_def)
next
  case (Inr s')
  then have e: "exec s c = s'" by (simp add: exec_def)
  show ?thesis
  proof (cases c)
    case (CreateSwap sender tokA ownB tokB)
    with Inr obtain j where "createSwap sender tokA ownB tokB s = Inr (s', j)"
      by (cases "createSwap sender tokA ownB tokB s") auto
    from createSwap_Inr(9) [OF this] show ?thesis
      using assms(3,4) e by auto
  next
    case (AcceptSwap sender swapId)
    with Inr have a: "acceptSwap sender swapId s = Inr (s', ())"
      by (cases "acceptSwap sender swapId s") auto
    have nz: "swaps s swapId \<noteq> zeroSwap"
      using wf_acceptSwap(2) [OF assms(1) a] assms(2) AcceptSwap by simp
    from acceptSwap_Inr(8) [OF a wf_nonzero(3) [OF assms(1) nz]] show ?thesis
      using assms(3) nz e by auto
  next
    case (CancelSwap sender swapId)
    with Inr have "cancelSwap sender swapId s = Inr (s', ())"
      by (cases "cancelSwap sender swapId s") auto
    from cancelSwap_Inr(6) [OF this] show ?thesis using assms(3) e by simp
  next
    case (Pause sender)
    with Inr have "pause sender s = Inr (s', ())"
      by (cases "pause sender s") auto
    then show ?thesis using assms(3) e by (simp add: pause_Inr)
  next
    case (Unpause sender)
    with Inr have "unpause sender s = Inr (s', ())"
      by (cases "unpause sender s") auto
    then show ?thesis using assms(3) e by (simp add: unpause_Inr)
  qed (use Inr e assms(3) in \<open>auto simp: onCard_Inr\<close>)
qed

lemma erased_run:
  assumes "wf s" "external cs" "swaps s i = zeroSwap" "i < nextSwapId s"
  shows "swaps (run s cs) i = zeroSwap"
  using assms
proof (induction cs arbitrary: s)
  case Nil
  then show ?case by simp
next
  case (Cons c cs)
  from Cons.prems have c: "caller_of c \<noteq> 0" and cs: "external cs" by simp_all
  have "i < nextSwapId (exec s c)"
    using Cons.prems(4) nextSwapId_exec [of s c] by simp
  then show ?case
    using Cons.IH [OF wf_exec [OF Cons.prems(1) c] cs erased_exec [OF Cons.prems(1) c Cons.prems(3,4)]]
    by simp
qed

section \<open>After a swap has been settled or withdrawn\<close>

text \<open>An executed record stays executed.\<close>

lemma executed_exec:
  assumes "wf s" "caller_of c \<noteq> 0" "executed (swaps s i)"
  shows "executed (swaps (exec s c) i)"
proof (cases "perform c s")
  case (Inl e)
  then show ?thesis using assms(3) by (simp add: exec_def)
next
  case (Inr s')
  then have e: "exec s c = s'" by (simp add: exec_def)
  have nz: "swaps s i \<noteq> zeroSwap" using assms(3) by auto
  show ?thesis
  proof (cases c)
    case (CreateSwap sender tokA ownB tokB)
    with Inr obtain j where "createSwap sender tokA ownB tokB s = Inr (s', j)"
      by (cases "createSwap sender tokA ownB tokB s") auto
    from createSwap_Inr(9) [OF this] show ?thesis
      using assms(3) wf_nonzero(2) [OF assms(1) nz] e by auto
  next
    case (AcceptSwap sender swapId)
    with Inr have a: "acceptSwap sender swapId s = Inr (s', ())"
      by (cases "acceptSwap sender swapId s") auto
    have "swaps s swapId \<noteq> zeroSwap"
      using wf_acceptSwap(2) [OF assms(1) a] assms(2) AcceptSwap by simp
    from acceptSwap_Inr(8) [OF a wf_nonzero(3) [OF assms(1) this]] show ?thesis
      using assms(3) e by auto
  next
    case (CancelSwap sender swapId)
    with Inr have a: "cancelSwap sender swapId s = Inr (s', ())"
      by (cases "cancelSwap sender swapId s") auto
    from cancelSwap_Inr(3,6) [OF a] show ?thesis using assms(3) e by auto
  next
    case (Pause sender)
    with Inr have "pause sender s = Inr (s', ())"
      by (cases "pause sender s") auto
    then show ?thesis using assms(3) e by (simp add: pause_Inr)
  next
    case (Unpause sender)
    with Inr have "unpause sender s = Inr (s', ())"
      by (cases "unpause sender s") auto
    then show ?thesis using assms(3) e by (simp add: unpause_Inr)
  qed (use Inr e assms(3) in \<open>auto simp: onCard_Inr\<close>)
qed

lemma executed_run:
  assumes "wf s" "external cs" "executed (swaps s i)"
  shows "executed (swaps (run s cs) i)"
  using assms
proof (induction cs arbitrary: s)
  case Nil
  then show ?case by simp
next
  case (Cons c cs)
  from Cons.prems have c: "caller_of c \<noteq> 0" and cs: "external cs" by simp_all
  show ?case
    using Cons.IH [OF wf_exec [OF Cons.prems(1) c] cs executed_exec [OF Cons.prems(1) c Cons.prems(3)]]
    by simp
qed

lemma after_accept:
  assumes "external cs" "p \<noteq> 0" "acceptSwap p k (run (deployed this d) cs) = Inr (w, x)"
    "external cs'"
  shows "acceptSwap c k (run w cs') = Inl (if paused (run w cs') then SystemPaused else SwapNotPending)"
    "cancelSwap c k (run w cs') = Inl (if paused (run w cs') then SystemPaused else SwapNotPending)"
proof -
  let ?s = "run (deployed this d) cs"
  have w0: "wf ?s" by (rule wf_run [OF wf_deployed assms(1)])
  have w1: "wf w" by (rule wf_acceptSwap(1) [OF w0 assms(3,2)])
  have "swaps ?s k \<noteq> zeroSwap" by (rule wf_acceptSwap(2) [OF w0 assms(3,2)])
  from acceptSwap_Inr(8) [OF assms(3) wf_nonzero(3) [OF w0 this]]
  have "executed (swaps w k)" by simp
  from executed_run [OF w1 assms(4) this] have x: "executed (swaps (run w cs') k)" .
  have e: "\<not> entered (run w cs')" using wf_run [OF w1 assms(4)] by (simp add: wf_def)
  show "acceptSwap c k (run w cs') = Inl (if paused (run w cs') then SystemPaused else SwapNotPending)"
    "cancelSwap c k (run w cs') = Inl (if paused (run w cs') then SystemPaused else SwapNotPending)"
    by (rule acceptSwap_executed [OF x e], rule cancelSwap_executed [OF x e])
qed

lemma after_cancel:
  assumes "external cs" "p \<noteq> 0" "cancelSwap p k (run (deployed this d) cs) = Inr (w, x)"
    "external cs'" "c \<noteq> 0"
  shows "acceptSwap c k (run w cs') = Inl (if paused (run w cs') then SystemPaused else NotCounterparty)"
    "cancelSwap c k (run w cs') = Inl (if paused (run w cs') then SystemPaused else NotProposer)"
proof -
  let ?s = "run (deployed this d) cs"
  note r = cancelSwap_Inr [OF assms(3)]
  have w0: "wf ?s" by (rule wf_run [OF wf_deployed assms(1)])
  have w1: "wf w" by (rule wf_cancelSwap [OF w0 assms(3)])
  have "swaps ?s k \<noteq> zeroSwap" using r(4) assms(2) by auto
  from wf_nonzero(2) [OF w0 this] have lt: "k < nextSwapId w" unfolding r(6) by simp
  have "swaps w k = zeroSwap" unfolding r(6) by simp
  from erased_run [OF w1 assms(4) this lt] have z: "swaps (run w cs') k = zeroSwap" .
  have e: "\<not> entered (run w cs')" using wf_run [OF w1 assms(4)] by (simp add: wf_def)
  show "acceptSwap c k (run w cs') = Inl (if paused (run w cs') then SystemPaused else NotCounterparty)"
    "cancelSwap c k (run w cs') = Inl (if paused (run w cs') then SystemPaused else NotProposer)"
    by (rule acceptSwap_unset [OF z assms(5) e], rule cancelSwap_unset [OF z assms(5) e])
qed

section \<open>The scenarios, evaluated\<close>

lemmas eval_defs = run_def exec_def deployed_def newSwap_def newCard_def onCard_def mint_def
  create_def
  approve_def ownerOf_def getApproved_def transferFrom_def cardPause_def cardUnpause_def
  createSwap_def acceptSwap_def cancelSwap_def pause_def unpause_def whenNotPaused_def
  nonReentrant_def onlyOwner_def unlock_def createSwap_body_def acceptSwap_body_def
  cancelSwap_body_def Let_def zeroSwap_def

lemma offered_eq:
  "offered =
     \<lparr>pokemonCard =
        \<lparr>holder = [2 \<mapsto> 2, 1 \<mapsto> 100], operator = Map.empty,
         metadata = [1 \<mapsto> ''pikachu'', 2 \<mapsto> ''bulbasaur''], nextTokenId = 3,
         cardPaused = False, cardOwner = 9,
         cardLog = [AssetCreated 1 1 ''pikachu'', AssetCreated 2 2 ''bulbasaur'',
                    AssetTransferred 1 1 100]\<rparr>,
      self = 100,
      swaps = (\<lambda>_. zeroSwap)(1 := \<lparr>tokenAOwner = 1, tokenA = 1, tokenBOwner = 2, tokenB = 2,
                                    executed = False\<rparr>),
      nextSwapId = 2, paused = False, owner = 9, entered = False,
      swapLog = [SwapCreated 1 1 1 2 2]\<rparr>"
  by (simp add: offered_def eval_defs)

lemma offered_history:
  "offered = run (deployed 100 9)
     [Mint 1 1 True ''pikachu'', Mint 2 2 True ''bulbasaur'', Approve 1 100 1, CreateSwap 1 1 2 2]"
  "external [Mint 1 1 True ''pikachu'', Mint 2 2 True ''bulbasaur'', Approve 1 100 1, CreateSwap 1 1 2 2]"
  by (simp_all add: offered_def)

lemma withdrawn_eq: "cancelSwap 1 1 offered = Inr (withdrawn, ())"
  by (simp add: withdrawn_def offered_eq eval_defs)

lemma halted_eq: "pause 9 offered = Inr (halted, ())" "halted = offered\<lparr>paused := True\<rparr>"
  by (simp_all add: halted_def offered_eq eval_defs)

lemma agreed_eq:
  "agreed = offered\<lparr>pokemonCard := (pokemonCard offered)\<lparr>operator := [2 \<mapsto> 100]\<rparr>\<rparr>"
  by (simp add: agreed_def offered_eq eval_defs)

lemma agreed_history:
  "agreed = run (deployed 100 9)
     [Mint 1 1 True ''pikachu'', Mint 2 2 True ''bulbasaur'', Approve 1 100 1, CreateSwap 1 1 2 2,
      Approve 2 100 2]"
  "external [Mint 1 1 True ''pikachu'', Mint 2 2 True ''bulbasaur'', Approve 1 100 1, CreateSwap 1 1 2 2,
      Approve 2 100 2]"
  by (simp_all add: agreed_def offered_def)

lemma settled_eq: "acceptSwap 2 1 agreed = Inr (settled, ())"
  by (simp add: settled_def agreed_eq offered_eq eval_defs)

lemma disposed_eq:
  "disposed = offered\<lparr>pokemonCard := (pokemonCard offered)\<lparr>holder := [1 \<mapsto> 100, 2 \<mapsto> 3],
     cardLog := cardLog (pokemonCard offered) @ [AssetTransferred 2 2 3]\<rparr>\<rparr>"
  by (simp add: disposed_def offered_eq eval_defs)

section \<open>Acceptance\<close>

text \<open>
  C1. In a state of a history of external transactions, if \<open>acceptSwap\<close> by a sender
  other than the zero address succeeds on a swap, then the swap was not executed and the
  sender is its counterparty; afterwards the sender holds the proposer's asset, the
  proposer holds the counterparty's asset, and the record is marked executed; the
  registry has logged exactly three transfers, in this order: the counterparty's asset
  from the sender to the coordinator, the proposer's asset from the coordinator to the
  sender, the counterparty's asset from the coordinator to the proposer.
\<close>

theorem acceptSwap_exchanges:
  assumes "external cs" "s = run (deployed this d) cs" "sender \<noteq> 0"
    and "acceptSwap sender swapId s = Inr (s', u)"
  shows "\<not> executed (swaps s swapId) \<and> tokenBOwner (swaps s swapId) = sender \<and>
         ownerOf (pokemonCard s') (tokenA (swaps s swapId)) = Inr sender \<and>
         ownerOf (pokemonCard s') (tokenB (swaps s swapId)) = Inr (tokenAOwner (swaps s swapId)) \<and>
         swaps s' swapId = (swaps s swapId)\<lparr>executed := True\<rparr> \<and>
         cardLog (pokemonCard s') = cardLog (pokemonCard s) @
           [AssetTransferred (tokenB (swaps s swapId)) sender (self s),
            AssetTransferred (tokenA (swaps s swapId)) (self s) sender,
            AssetTransferred (tokenB (swaps s swapId)) (self s) (tokenAOwner (swaps s swapId))]"
proof -
  have w: "wf s" using wf_run [OF wf_deployed assms(1)] assms(2) by simp
  have nz: "swaps s swapId \<noteq> zeroSwap" by (rule wf_acceptSwap(2) [OF w assms(4,3)])
  note ne = wf_nonzero(3) [OF w nz]
  note r = acceptSwap_Inr [OF assms(4) ne]
  have "ownerOf (pokemonCard s') (tokenA (swaps s swapId)) = Inr sender"
    "ownerOf (pokemonCard s') (tokenB (swaps s swapId)) = Inr (tokenAOwner (swaps s swapId))"
    "swaps s' swapId = (swaps s swapId)\<lparr>executed := True\<rparr>"
    "cardLog (pokemonCard s') = cardLog (pokemonCard s) @
           [AssetTransferred (tokenB (swaps s swapId)) sender (self s),
            AssetTransferred (tokenA (swaps s swapId)) (self s) sender,
            AssetTransferred (tokenB (swaps s swapId)) (self s) (tokenAOwner (swaps s swapId))]"
    unfolding r(8) using ne by (simp_all add: ownerOf_def)
  with r(3) r(4) [symmetric] show ?thesis by simp
qed

theorem acceptSwap_exchanges_witness:
  "acceptSwap 2 1 agreed = Inr (settled, ()) \<and>
   ownerOf (pokemonCard settled) 1 = Inr 2 \<and>
   ownerOf (pokemonCard settled) 2 = Inr 1 \<and>
   executed (swaps settled 1) \<and>
   cardLog (pokemonCard settled) = cardLog (pokemonCard agreed) @
     [AssetTransferred 2 2 100, AssetTransferred 1 100 2, AssetTransferred 2 100 1]"
proof -
  have n: "(2::address) \<noteq> 0" by simp
  have f: "swaps agreed 1 =
      \<lparr>tokenAOwner = 1, tokenA = 1, tokenBOwner = 2, tokenB = 2, executed = False\<rparr>"
    "self agreed = 100"
    by (simp_all add: agreed_eq offered_eq)
  show ?thesis
    using settled_eq acceptSwap_exchanges [OF agreed_history(2,1) n settled_eq]
    by (simp add: f)
qed

section \<open>Acceptance after the counterparty asset has moved\<close>

text \<open>
  C2 as stated fails on the failure kind: once account 2 has given asset 2 to account 3,
  the transfer has cleared the approval, and \<open>acceptSwap\<close> by account 2 fails with
  \<open>NotApproved\<close>, which is not an ownership failure.
\<close>

theorem acceptSwap_after_disposal_kind:
  "\<not> executed (swaps disposed 1) \<and> tokenBOwner (swaps disposed 1) = 2 \<and>
   ownerOf (pokemonCard disposed) (tokenB (swaps disposed 1)) = Inr 3 \<and>
   acceptSwap 2 1 disposed = Inl NotApproved \<and>
   acceptSwap 2 1 disposed \<noteq> Inl OwnershipChanged \<and>
   acceptSwap 2 1 disposed \<noteq> Inl NotOwner"
  by (simp add: disposed_eq offered_eq eval_defs)

text \<open>
  C2, amended. Whenever the sender is not the current holder of the swap's counterparty
  asset, \<open>acceptSwap\<close> fails and leaves the state as it was. The failure is the first
  of: \<open>SystemPaused\<close>, \<open>ReentrantCall\<close>, \<open>SwapNotPending\<close>, \<open>NotCounterparty\<close>,
  \<open>NotApproved\<close> when the coordinator is not the approved operator of the asset, and
  otherwise the failure of the registry's first transfer, \<open>NotHolder\<close> (\<open>UnknownAsset\<close>
  for an asset without holder).
\<close>

theorem acceptSwap_holder_changed:
  assumes "ownerOf (pokemonCard s) (tokenB (swaps s swapId)) \<noteq> Inr sender"
  shows "acceptSwap sender swapId s =
           Inl (if paused s then SystemPaused
                else if entered s then ReentrantCall
                else if executed (swaps s swapId) then SwapNotPending
                else if sender \<noteq> tokenBOwner (swaps s swapId) then NotCounterparty
                else if getApproved (pokemonCard s) (tokenB (swaps s swapId)) \<noteq> Some (self s)
                  then NotApproved
                else if holder (pokemonCard s) (tokenB (swaps s swapId)) = None then UnknownAsset
                else NotHolder) \<and>
         exec s (AcceptSwap sender swapId) = s"
proof -
  have "acceptSwap sender swapId s =
           Inl (if paused s then SystemPaused
                else if entered s then ReentrantCall
                else if executed (swaps s swapId) then SwapNotPending
                else if sender \<noteq> tokenBOwner (swaps s swapId) then NotCounterparty
                else if getApproved (pokemonCard s) (tokenB (swaps s swapId)) \<noteq> Some (self s)
                  then NotApproved
                else if holder (pokemonCard s) (tokenB (swaps s swapId)) = None then UnknownAsset
                else NotHolder)"
    using assms
    by (auto simp: acceptSwap_def whenNotPaused_def nonReentrant_def acceptSwap_body_def
        transferFrom_def ownerOf_def getApproved_def split: option.splits)
  then show ?thesis by (simp add: exec_def)
qed

theorem acceptSwap_holder_changed_witness:
  "ownerOf (pokemonCard disposed) (tokenB (swaps disposed 1)) \<noteq> Inr 2 \<and>
   acceptSwap 2 1 disposed = Inl NotApproved \<and>
   exec disposed (AcceptSwap 2 1) = disposed"
proof -
  have h: "ownerOf (pokemonCard disposed) (tokenB (swaps disposed 1)) \<noteq> Inr 2"
    by (simp add: disposed_eq offered_eq ownerOf_def)
  have f: "\<not> paused disposed" "\<not> entered disposed" "\<not> executed (swaps disposed 1)"
    "tokenBOwner (swaps disposed 1) = 2"
    "getApproved (pokemonCard disposed) (tokenB (swaps disposed 1)) = None"
    by (simp_all add: disposed_eq offered_eq getApproved_def)
  show ?thesis
    using h acceptSwap_holder_changed [OF h] by (simp add: f)
qed

section \<open>Second calls\<close>

text \<open>
  C3 as stated fails on the failure kind. \<open>cancelSwap\<close> deletes the record instead of
  marking it, so a second \<open>cancelSwap\<close> by the proposer finds no executed flag and
  fails with \<open>NotProposer\<close>. And a call that arrives during an \<open>acceptSwap\<close>, that is
  while the lock of \<open>nonReentrant\<close> is held, is refused with \<open>ReentrantCall\<close> before
  the state of the swap is looked at.
\<close>

theorem second_call_kind:
  "cancelSwap 1 1 offered = Inr (withdrawn, ()) \<and>
   cancelSwap 1 1 withdrawn = Inl NotProposer \<and>
   cancelSwap 1 1 withdrawn \<noteq> Inl SwapNotPending \<and>
   acceptSwap 2 1 (agreed\<lparr>entered := True\<rparr>) = Inl ReentrantCall \<and>
   acceptSwap 2 1 (agreed\<lparr>entered := True\<rparr>) \<noteq> Inl SwapNotPending"
proof -
  have "cancelSwap 1 1 withdrawn = Inl NotProposer"
    by (simp add: withdrawn_def offered_eq eval_defs)
  moreover have "acceptSwap 2 1 (agreed\<lparr>entered := True\<rparr>) = Inl ReentrantCall"
    by (simp add: agreed_eq offered_eq acceptSwap_def whenNotPaused_def nonReentrant_def)
  ultimately show ?thesis using withdrawn_eq by simp
qed

text \<open>
  C3, amended. In \<open>acceptSwap\<close> and \<open>cancelSwap\<close> the state of the swap is checked
  (not executed, the sender is the recorded party) and flipped (the executed flag set,
  or the record erased) atomically with the transfers: the flip and the logged
  transfers are effects of the same successful call. A second call of \<open>acceptSwap\<close> or
  \<open>cancelSwap\<close> on the same id fails and leaves the state as it was:
  \<^item> while the lock of \<open>nonReentrant\<close> is held, with \<open>ReentrantCall\<close>;
  \<^item> in every later state of the history after a successful \<open>acceptSwap\<close>, with
    \<open>SwapNotPending\<close>;
  \<^item> in every later state of the history after a successful \<open>cancelSwap\<close>, for a
    sender other than the zero address, with \<open>NotCounterparty\<close> (\<open>acceptSwap\<close>) and
    \<open>NotProposer\<close> (\<open>cancelSwap\<close>);

  in each case with \<open>SystemPaused\<close> instead while the coordinator is paused.
\<close>

theorem second_call_rejected:
  "(acceptSwap b j t = Inr (t', u) \<longrightarrow>
      \<not> executed (swaps t j) \<and> tokenBOwner (swaps t j) = b \<and> executed (swaps t' j) \<and>
      cardLog (pokemonCard t') = cardLog (pokemonCard t) @
        [AssetTransferred (tokenB (swaps t j)) b (self t),
         AssetTransferred (tokenA (swaps t j)) (self t) b,
         AssetTransferred (tokenB (swaps t j)) (self t) (tokenAOwner (swaps t j))]) \<and>
   (cancelSwap b' j' v = Inr (v', u') \<longrightarrow>
      \<not> executed (swaps v j') \<and> tokenAOwner (swaps v j') = b' \<and> swaps v' j' = zeroSwap \<and>
      cardLog (pokemonCard v') = cardLog (pokemonCard v) @
        [AssetTransferred (tokenA (swaps v j')) (self v) b']) \<and>
   (entered s \<longrightarrow>
      acceptSwap a i s = Inl (if paused s then SystemPaused else ReentrantCall) \<and>
      cancelSwap a i s = Inl (if paused s then SystemPaused else ReentrantCall) \<and>
      exec s (AcceptSwap a i) = s \<and> exec s (CancelSwap a i) = s) \<and>
   (external cs \<and> p \<noteq> 0 \<and> acceptSwap p k (run (deployed this d) cs) = Inr (w, x) \<and>
      external cs' \<and> w' = run w cs' \<longrightarrow>
      acceptSwap c k w' = Inl (if paused w' then SystemPaused else SwapNotPending) \<and>
      cancelSwap c k w' = Inl (if paused w' then SystemPaused else SwapNotPending) \<and>
      exec w' (AcceptSwap c k) = w' \<and> exec w' (CancelSwap c k) = w') \<and>
   (external ds \<and> q \<noteq> 0 \<and> cancelSwap q l (run (deployed this' d') ds) = Inr (y, z) \<and>
      external ds' \<and> y' = run y ds' \<and> c' \<noteq> 0 \<longrightarrow>
      acceptSwap c' l y' = Inl (if paused y' then SystemPaused else NotCounterparty) \<and>
      cancelSwap c' l y' = Inl (if paused y' then SystemPaused else NotProposer) \<and>
      exec y' (AcceptSwap c' l) = y' \<and> exec y' (CancelSwap c' l) = y')"
proof (intro conjI impI)
  assume h: "acceptSwap b j t = Inr (t', u)"
  show "\<not> executed (swaps t j)" "tokenBOwner (swaps t j) = b" "executed (swaps t' j)"
    "cardLog (pokemonCard t') = cardLog (pokemonCard t) @
        [AssetTransferred (tokenB (swaps t j)) b (self t),
         AssetTransferred (tokenA (swaps t j)) (self t) b,
         AssetTransferred (tokenB (swaps t j)) (self t) (tokenAOwner (swaps t j))]"
    by (rule acceptSwap_flips [OF h])+
next
  assume h: "cancelSwap b' j' v = Inr (v', u')"
  note r = cancelSwap_Inr [OF h]
  show "\<not> executed (swaps v j')" by (rule r(3))
  show "tokenAOwner (swaps v j') = b'" by (rule r(4) [symmetric])
  show "swaps v' j' = zeroSwap" unfolding r(6) by simp
  show "cardLog (pokemonCard v') = cardLog (pokemonCard v) @
        [AssetTransferred (tokenA (swaps v j')) (self v) b']"
    unfolding r(6) by simp
next
  assume h: "entered s"
  note r = locked [OF h]
  show "acceptSwap a i s = Inl (if paused s then SystemPaused else ReentrantCall)"
    "cancelSwap a i s = Inl (if paused s then SystemPaused else ReentrantCall)"
    by (rule r)+
  show "exec s (AcceptSwap a i) = s" "exec s (CancelSwap a i) = s"
    by (simp_all add: exec_def r)
next
  assume h: "external cs \<and> p \<noteq> 0 \<and> acceptSwap p k (run (deployed this d) cs) = Inr (w, x) \<and>
      external cs' \<and> w' = run w cs'"
  then have r: "acceptSwap c k w' = Inl (if paused w' then SystemPaused else SwapNotPending)"
    "cancelSwap c k w' = Inl (if paused w' then SystemPaused else SwapNotPending)"
    using after_accept [of cs p k this d w x cs' c] by simp_all
  then show "acceptSwap c k w' = Inl (if paused w' then SystemPaused else SwapNotPending)"
    "cancelSwap c k w' = Inl (if paused w' then SystemPaused else SwapNotPending)"
    "exec w' (AcceptSwap c k) = w'" "exec w' (CancelSwap c k) = w'"
    by (simp_all add: exec_def)
next
  assume h: "external ds \<and> q \<noteq> 0 \<and> cancelSwap q l (run (deployed this' d') ds) = Inr (y, z) \<and>
      external ds' \<and> y' = run y ds' \<and> c' \<noteq> 0"
  then have r: "acceptSwap c' l y' = Inl (if paused y' then SystemPaused else NotCounterparty)"
    "cancelSwap c' l y' = Inl (if paused y' then SystemPaused else NotProposer)"
    using after_cancel [of ds q l this' d' y z ds' c'] by simp_all
  then show "acceptSwap c' l y' = Inl (if paused y' then SystemPaused else NotCounterparty)"
    "cancelSwap c' l y' = Inl (if paused y' then SystemPaused else NotProposer)"
    "exec y' (AcceptSwap c' l) = y'" "exec y' (CancelSwap c' l) = y'"
    by (simp_all add: exec_def)
qed

theorem second_call_rejected_witness:
  "acceptSwap 2 1 agreed = Inr (settled, ()) \<and>
   \<not> executed (swaps agreed 1) \<and> executed (swaps settled 1) \<and>
   cardLog (pokemonCard settled) = cardLog (pokemonCard agreed) @
     [AssetTransferred 2 2 100, AssetTransferred 1 100 2, AssetTransferred 2 100 1] \<and>
   cancelSwap 1 1 offered = Inr (withdrawn, ()) \<and>
   swaps withdrawn 1 = zeroSwap \<and>
   cardLog (pokemonCard withdrawn) = cardLog (pokemonCard offered) @ [AssetTransferred 1 100 1] \<and>
   entered (agreed\<lparr>entered := True\<rparr>) \<and>
   acceptSwap 2 1 (agreed\<lparr>entered := True\<rparr>) = Inl ReentrantCall \<and>
   cancelSwap 1 1 (agreed\<lparr>entered := True\<rparr>) = Inl ReentrantCall \<and>
   acceptSwap 2 1 (run settled [Approve 2 100 1]) = Inl SwapNotPending \<and>
   cancelSwap 2 1 (run settled [Approve 2 100 1]) = Inl SwapNotPending \<and>
   acceptSwap 2 1 (run withdrawn [Approve 2 100 2]) = Inl NotCounterparty \<and>
   cancelSwap 2 1 (run withdrawn [Approve 2 100 2]) = Inl NotProposer"
proof -
  let ?cs = "[Mint 1 1 True ''pikachu'', Mint 2 2 True ''bulbasaur'', Approve 1 100 1,
      CreateSwap 1 1 2 2]"
  let ?ds = "[Mint 1 1 True ''pikachu'', Mint 2 2 True ''bulbasaur'', Approve 1 100 1,
      CreateSwap 1 1 2 2, Approve 2 100 2]"
  let ?l = "agreed\<lparr>entered := True\<rparr>"
  let ?w = "run settled [Approve 2 100 1]"
  let ?y = "run withdrawn [Approve 2 100 2]"
  have h3: "entered ?l" by simp
  have h4: "external ?ds \<and> (2::address) \<noteq> 0 \<and>
      acceptSwap 2 1 (run (deployed 100 9) ?ds) = Inr (settled, ()) \<and>
      external [Approve 2 100 1] \<and> ?w = run settled [Approve 2 100 1]"
    using settled_eq unfolding agreed_history(1) by simp
  have h5: "external ?cs \<and> (1::address) \<noteq> 0 \<and>
      cancelSwap 1 1 (run (deployed 100 9) ?cs) = Inr (withdrawn, ()) \<and>
      external [Approve 2 100 2] \<and> ?y = run withdrawn [Approve 2 100 2] \<and> (2::address) \<noteq> 0"
    using withdrawn_eq unfolding offered_history(1) by simp
  have f: "\<not> paused ?l" "\<not> paused ?w" "\<not> paused ?y"
    "swaps agreed 1 =
      \<lparr>tokenAOwner = 1, tokenA = 1, tokenBOwner = 2, tokenB = 2, executed = False\<rparr>"
    "swaps offered 1 =
      \<lparr>tokenAOwner = 1, tokenA = 1, tokenBOwner = 2, tokenB = 2, executed = False\<rparr>"
    "self agreed = 100" "self offered = 100"
    by (simp_all add: settled_def withdrawn_def agreed_eq offered_eq eval_defs)
  note t = second_call_rejected [where b = 2 and j = 1 and t = agreed and t' = settled
      and u = "()" and b' = 1 and j' = 1 and v = offered and v' = withdrawn and u' = "()"
      and s = ?l and a = 2 and i = 1
      and cs = ?ds and p = 2 and k = 1 and this = 100 and d = 9 and w = settled and x = "()"
      and cs' = "[Approve 2 100 1]" and w' = ?w and c = 2
      and ds = ?cs and q = 1 and l = 1 and this' = 100 and d' = 9 and y = withdrawn and z = "()"
      and ds' = "[Approve 2 100 2]" and y' = ?y and c' = 2]
  have t1: "\<not> executed (swaps agreed 1)" "executed (swaps settled 1)"
    "cardLog (pokemonCard settled) = cardLog (pokemonCard agreed) @
     [AssetTransferred 2 2 100, AssetTransferred 1 100 2, AssetTransferred 2 100 1]"
    using t settled_eq by (simp_all add: f)
  have t2: "swaps withdrawn 1 = zeroSwap"
    "cardLog (pokemonCard withdrawn) = cardLog (pokemonCard offered) @ [AssetTransferred 1 100 1]"
    using t withdrawn_eq by (simp_all add: f)
  have t3: "acceptSwap 2 1 ?l = Inl ReentrantCall"
    using t h3 f(1) by simp
  have t4: "acceptSwap 2 1 ?w = Inl SwapNotPending" "cancelSwap 2 1 ?w = Inl SwapNotPending"
    using t h4 f(2) by simp_all
  have t5: "acceptSwap 2 1 ?y = Inl NotCounterparty" "cancelSwap 2 1 ?y = Inl NotProposer"
    using t h5 f(3) by simp_all
  have r3: "cancelSwap 1 1 ?l = Inl ReentrantCall"
    using locked(2) [OF h3, of 1 1] f(1) by simp
  show ?thesis
    using t1 t2 t3 t4 t5 r3 h3 settled_eq withdrawn_eq by (simp del: run_Cons)
qed

section \<open>Cancellation\<close>

text \<open>
  C4 as stated fails on the failure kind: after a successful \<open>cancelSwap\<close> the record
  is unset, and \<open>acceptSwap\<close> by the former counterparty fails with \<open>NotCounterparty\<close>.
\<close>

theorem acceptSwap_after_cancel_kind:
  "cancelSwap 1 1 offered = Inr (withdrawn, ()) \<and>
   acceptSwap 2 1 withdrawn = Inl NotCounterparty \<and>
   acceptSwap 2 1 withdrawn \<noteq> Inl UnknownSwap \<and>
   acceptSwap 2 1 withdrawn \<noteq> Inl SwapNotPending"
proof -
  have "acceptSwap 2 1 withdrawn = Inl NotCounterparty"
    by (simp add: withdrawn_def offered_eq eval_defs)
  then show ?thesis using withdrawn_eq by simp
qed

text \<open>
  C4, amended. In a state of a history of external transactions, if \<open>cancelSwap\<close> by a
  sender other than the zero address succeeds, then the sender is the proposer, the
  proposer holds the proposer's asset again, the record is unset, and in every later
  state every \<open>acceptSwap\<close> on that id by a sender other than the zero address fails,
  with \<open>SystemPaused\<close> while the coordinator is paused and with \<open>NotCounterparty\<close>
  otherwise, and leaves the state as it was.
\<close>

theorem cancelSwap_returns_asset:
  assumes "external cs" "s = run (deployed this d) cs" "sender \<noteq> 0"
    and "cancelSwap sender swapId s = Inr (s', u)"
    and "external cs'" "t = run s' cs'" "a \<noteq> 0"
  shows "sender = tokenAOwner (swaps s swapId) \<and> \<not> executed (swaps s swapId) \<and>
         ownerOf (pokemonCard s') (tokenA (swaps s swapId)) = Inr sender \<and>
         swaps s' swapId = zeroSwap \<and>
         acceptSwap a swapId t = Inl (if paused t then SystemPaused else NotCounterparty) \<and>
         exec t (AcceptSwap a swapId) = t"
proof -
  note c = cancelSwap_Inr [OF assms(4)]
  have w: "wf s" using wf_run [OF wf_deployed assms(1)] assms(2) by simp
  have w': "wf s'" by (rule wf_cancelSwap [OF w assms(4)])
  have "swaps s swapId \<noteq> zeroSwap" using c(4) assms(3) by auto
  from wf_nonzero(2) [OF w this] have lt: "swapId < nextSwapId s'"
    unfolding c(6) by simp
  have z': "swaps s' swapId = zeroSwap" unfolding c(6) by simp
  have z: "swaps t swapId = zeroSwap"
    using erased_run [OF w' assms(5) z' lt] assms(6) by simp
  have e: "\<not> entered t" using wf_run [OF w' assms(5)] assms(6) by (simp add: wf_def)
  have h: "ownerOf (pokemonCard s') (tokenA (swaps s swapId)) = Inr sender"
    unfolding c(6) by (simp add: ownerOf_def)
  show ?thesis
    using c(3,4) h z' acceptSwap_unset [OF z assms(7) e] by (simp add: exec_def)
qed

theorem cancelSwap_returns_asset_witness:
  "cancelSwap 1 1 offered = Inr (withdrawn, ()) \<and>
   tokenAOwner (swaps offered 1) = 1 \<and>
   ownerOf (pokemonCard withdrawn) 1 = Inr 1 \<and>
   swaps withdrawn 1 = zeroSwap \<and>
   acceptSwap 2 1 (run withdrawn [Approve 2 100 2]) = Inl NotCounterparty"
proof -
  have p: "\<not> paused (run withdrawn [Approve 2 100 2])" "tokenA (swaps offered 1) = 1"
    by (simp_all add: withdrawn_def offered_eq eval_defs)
  have n: "(1::address) \<noteq> 0" "(2::address) \<noteq> 0" "external [Approve 2 100 2]" by simp_all
  show ?thesis
    using p withdrawn_eq
      cancelSwap_returns_asset [OF offered_history(2,1) n(1) withdrawn_eq n(3) refl n(2)]
    by simp
qed

section \<open>Failed calls\<close>

text \<open>
  C5 as stated fails on the failures being distinguishable. A swap id that was never
  created and an existing swap called by an account that is not its counterparty are
  two different violated preconditions; \<open>acceptSwap\<close> reports both as
  \<open>NotCounterparty\<close>, and \<open>UnknownSwap\<close> is not raised.
\<close>

theorem missing_swap_kind:
  "swaps offered 7 = zeroSwap \<and> acceptSwap 2 7 offered = Inl NotCounterparty \<and>
   acceptSwap 2 7 offered \<noteq> Inl UnknownSwap \<and>
   swaps offered 1 \<noteq> zeroSwap \<and> tokenBOwner (swaps offered 1) \<noteq> 3 \<and>
   acceptSwap 3 1 offered = Inl NotCounterparty"
  by (simp add: offered_eq acceptSwap_def whenNotPaused_def nonReentrant_def acceptSwap_body_def
      zeroSwap_def)

text \<open>
  C5, amended. Each of \<open>createSwap\<close>, \<open>acceptSwap\<close>, \<open>cancelSwap\<close>, \<open>mint\<close> and the
  registry's \<open>transferFrom\<close> fails exactly when one of its checks does not hold, and
  then with the named kind of the first check, in the order of the code, that does not
  hold; when all hold the call succeeds. Every call that fails leaves the state as it
  was, both logs included, so no event is emitted. The kinds do not tell every
  precondition of the specification apart: no call fails with \<open>UnknownSwap\<close> or
  \<open>OwnershipChanged\<close> (a swap that does not exist and a counterparty asset that has
  changed holder fail on the checks of the sender, the approval and the transfer).
\<close>

theorem violated_check_fails:
  "outcome s (CreateSwap sender tokA ownB tokB) =
     (if paused s then Some SystemPaused
      else if entered s then Some ReentrantCall
      else if tokA = tokB then Some IdenticalAssets
      else if holder (pokemonCard s) tokA = None then Some UnknownAsset
      else if holder (pokemonCard s) tokA \<noteq> Some sender then Some NotOwner
      else if holder (pokemonCard s) tokB = None then Some UnknownAsset
      else if holder (pokemonCard s) tokB \<noteq> Some ownB then Some CounterpartyMismatch
      else if getApproved (pokemonCard s) tokA \<noteq> Some (self s) then Some NotApproved
      else if nextSwapId s = - 1 then Some Overflow
      else None) \<and>
   outcome s (AcceptSwap a i) =
     (if paused s then Some SystemPaused
      else if entered s then Some ReentrantCall
      else if executed (swaps s i) then Some SwapNotPending
      else if a \<noteq> tokenBOwner (swaps s i) then Some NotCounterparty
      else if getApproved (pokemonCard s) (tokenB (swaps s i)) \<noteq> Some (self s)
        then Some NotApproved
      else if holder (pokemonCard s) (tokenB (swaps s i)) = None then Some UnknownAsset
      else if holder (pokemonCard s) (tokenB (swaps s i)) \<noteq> Some a then Some NotHolder
      else if tokenA (swaps s i) = tokenB (swaps s i)
        then (if a = self s then None else Some NotHolder)
      else if holder (pokemonCard s) (tokenA (swaps s i)) = None then Some UnknownAsset
      else if holder (pokemonCard s) (tokenA (swaps s i)) \<noteq> Some (self s) then Some NotHolder
      else None) \<and>
   outcome s (CancelSwap b j) =
     (if paused s then Some SystemPaused
      else if entered s then Some ReentrantCall
      else if executed (swaps s j) then Some SwapNotPending
      else if b \<noteq> tokenAOwner (swaps s j) then Some NotProposer
      else if holder (pokemonCard s) (tokenA (swaps s j)) = None then Some UnknownAsset
      else if holder (pokemonCard s) (tokenA (swaps s j)) \<noteq> Some (self s) then Some NotHolder
      else None) \<and>
   outcome s (Mint m rcp accepted uri) =
     (if cardPaused (pokemonCard s) then Some SystemPaused
      else if rcp = 0 then Some ZeroRecipient
      else if holder (pokemonCard s) (nextTokenId (pokemonCard s)) \<noteq> None then Some AssetExists
      else if \<not> accepted then Some NotReceiver
      else if nextTokenId (pokemonCard s) = - 1 then Some Overflow
      else None) \<and>
   outcome s (TransferFrom x src dst tokenId) =
     (if holder (pokemonCard s) tokenId = None then Some UnknownAsset
      else if holder (pokemonCard s) tokenId \<noteq> Some src then Some NotHolder
      else if x \<noteq> src \<and> getApproved (pokemonCard s) tokenId \<noteq> Some x then Some NotAuthorized
      else None) \<and>
   (outcome s c \<noteq> None \<longrightarrow>
      exec s c = s \<and> swapLog (exec s c) = swapLog s \<and>
      cardLog (pokemonCard (exec s c)) = cardLog (pokemonCard s)) \<and>
   outcome s c \<noteq> Some UnknownSwap \<and> outcome s c \<noteq> Some OwnershipChanged"
  using failed_unchanged [of s c]
  by (simp only: outcome_createSwap outcome_acceptSwap outcome_cancelSwap outcome_mint
      outcome_transferFrom never_raised) simp

theorem violated_check_fails_witness:
  "outcome offered (CreateSwap 2 2 1 1) = Some CounterpartyMismatch \<and>
   outcome offered (AcceptSwap 2 1) = Some NotApproved \<and>
   outcome offered (CancelSwap 2 1) = Some NotProposer \<and>
   outcome offered (Mint 3 0 True ''mew'') = Some ZeroRecipient \<and>
   outcome offered (TransferFrom 1 1 3 1) = Some NotHolder \<and>
   outcome offered (AcceptSwap 2 7) \<noteq> None \<and>
   exec offered (AcceptSwap 2 7) = offered \<and>
   swapLog (exec offered (AcceptSwap 2 7)) = swapLog offered"
proof -
  have h: "outcome offered (AcceptSwap 2 7) \<noteq> None"
    by (simp add: outcome_acceptSwap offered_eq)
  have f: "\<not> paused offered" "\<not> entered offered" "\<not> cardPaused (pokemonCard offered)"
    "holder (pokemonCard offered) 1 = Some 100" "holder (pokemonCard offered) 2 = Some 2"
    "getApproved (pokemonCard offered) 2 = None"
    "swaps offered 1 =
      \<lparr>tokenAOwner = 1, tokenA = 1, tokenBOwner = 2, tokenB = 2, executed = False\<rparr>"
    by (simp_all add: offered_eq getApproved_def)
  show ?thesis
    using h violated_check_fails [of offered 2 2 1 1 2 1 2 1 3 0 True "''mew''" 1 1 3 1
        "AcceptSwap 2 7"]
    by (simp add: f)
qed

section \<open>Identical assets\<close>

text \<open>
  C6 as stated fails while the coordinator is paused: the pause check of
  \<open>whenNotPaused\<close> comes first.
\<close>

theorem createSwap_same_asset_paused:
  "createSwap 1 1 2 1 halted = Inl SystemPaused \<and>
   createSwap 1 1 2 1 halted \<noteq> Inl IdenticalAssets"
  by (simp add: halted_eq offered_eq createSwap_def whenNotPaused_def)

text \<open>
  C6, amended. While the coordinator is not paused and no coordinator call is in
  progress, \<open>createSwap\<close> of an asset for itself fails with \<open>IdenticalAssets\<close>, whoever
  calls it and whatever the counterparty, the holders and the approvals are, and the
  state after the call is the state before it.
\<close>

theorem createSwap_same_asset:
  assumes "\<not> paused s" "\<not> entered s"
  shows "createSwap sender a ownB a s = Inl IdenticalAssets \<and>
         exec s (CreateSwap sender a ownB a) = s"
  using assms
  by (simp add: exec_def createSwap_def whenNotPaused_def nonReentrant_def createSwap_body_def)

theorem createSwap_same_asset_witness:
  "\<not> paused offered \<and> \<not> entered offered \<and>
   createSwap 3 2 2 2 offered = Inl IdenticalAssets \<and>
   exec offered (CreateSwap 3 2 2 2) = offered"
proof -
  have h: "\<not> paused offered" "\<not> entered offered" by (simp_all add: offered_eq)
  show ?thesis using h createSwap_same_asset [OF h, of 3 2 2] by simp
qed

section \<open>Creation\<close>

text \<open>
  C7. In a state of a history of external transactions, a successful \<open>createSwap\<close>
  returns \<open>nextSwapId\<close>, which is at least 1 (the constructor sets it to 1) and whose
  entry was unset; \<open>nextSwapId\<close> becomes the id plus one and stays above the id in
  every later state, so the id is not returned again. The new record holds the
  arguments and is not executed, the coordinator holds the proposer's asset, holder and
  operator of the counterparty's asset are as before, and the registry has logged one
  transfer, that of the proposer's asset.
\<close>

theorem createSwap_escrows:
  assumes "external cs" "s = run (deployed this d) cs"
    and "createSwap sender tokA ownB tokB s = Inr (s', i)"
  shows "nextSwapId (deployed this d) = 1 \<and> i = nextSwapId s \<and> 1 \<le> i \<and>
         swaps s i = zeroSwap \<and> nextSwapId s' = i + 1 \<and> i < nextSwapId (run s' cs') \<and>
         swaps s' i = \<lparr>tokenAOwner = sender, tokenA = tokA, tokenBOwner = ownB,
                        tokenB = tokB, executed = False\<rparr> \<and>
         ownerOf (pokemonCard s') tokA = Inr (self s) \<and>
         holder (pokemonCard s') tokB = holder (pokemonCard s) tokB \<and>
         operator (pokemonCard s') tokB = operator (pokemonCard s) tokB \<and>
         cardLog (pokemonCard s') = cardLog (pokemonCard s) @
           [AssetTransferred tokA sender (self s)]"
proof -
  have w: "wf s" using wf_run [OF wf_deployed assms(1)] assms(2) by simp
  note r = createSwap_Inr [OF assms(3)]
  have "nextSwapId s \<noteq> 0" using w by (simp add: wf_def)
  then have one: "1 \<le> nextSwapId s"
    using word_less_1 [of "nextSwapId s"] not_less [of "nextSwapId s" 1] by blast
  have z: "swaps s (nextSwapId s) = zeroSwap" using w by (simp add: wf_def)
  have "nextSwapId s < nextSwapId s'"
    unfolding r(9) using word_succ_less [OF r(7)] by simp
  also have "\<dots> \<le> nextSwapId (run s' cs')" by (rule nextSwapId_run)
  finally have later: "nextSwapId s < nextSwapId (run s' cs')" .
  have "nextSwapId s' = nextSwapId s + 1"
    "swaps s' (nextSwapId s) = \<lparr>tokenAOwner = sender, tokenA = tokA, tokenBOwner = ownB,
                        tokenB = tokB, executed = False\<rparr>"
    "ownerOf (pokemonCard s') tokA = Inr (self s)"
    "holder (pokemonCard s') tokB = holder (pokemonCard s) tokB"
    "operator (pokemonCard s') tokB = operator (pokemonCard s) tokB"
    "cardLog (pokemonCard s') = cardLog (pokemonCard s) @ [AssetTransferred tokA sender (self s)]"
    unfolding r(9) using r(3) by (simp_all add: ownerOf_def)
  with one z later r(8) show ?thesis by (simp add: deployed_def newSwap_def)
qed

theorem createSwap_escrows_witness:
  "createSwap 1 1 2 2 (run (deployed 100 9)
      [Mint 1 1 True ''pikachu'', Mint 2 2 True ''bulbasaur'', Approve 1 100 1]) = Inr (offered, 1) \<and>
   nextSwapId (deployed 100 9) = 1 \<and>
   nextSwapId offered = 2 \<and> 1 < nextSwapId (run offered [Approve 2 100 2]) \<and>
   swaps offered 1 = \<lparr>tokenAOwner = 1, tokenA = 1, tokenBOwner = 2, tokenB = 2,
                        executed = False\<rparr> \<and>
   ownerOf (pokemonCard offered) 1 = Inr 100 \<and>
   holder (pokemonCard offered) 2 = Some 2"
proof -
  let ?cs = "[Mint 1 1 True ''pikachu'', Mint 2 2 True ''bulbasaur'', Approve 1 100 1]"
  have e: "external ?cs" by simp
  have c: "createSwap 1 1 2 2 (run (deployed 100 9) ?cs) = Inr (offered, 1)"
    by (simp add: offered_eq eval_defs)
  have f: "self (run (deployed 100 9) ?cs) = 100"
    "holder (pokemonCard (run (deployed 100 9) ?cs)) 2 = Some 2"
    by (simp_all add: eval_defs)
  show ?thesis
    using c createSwap_escrows [OF e refl c, of "[Approve 2 100 2]"]
    by (simp add: f del: run_Cons)
qed

section \<open>Pausing\<close>

text \<open>
  C8. While the coordinator is paused, \<open>createSwap\<close>, \<open>acceptSwap\<close> and \<open>cancelSwap\<close>
  fail with \<open>SystemPaused\<close> and leave the state as it was. \<open>pause\<close> and \<open>unpause\<close>
  fail for every sender but the administrator; where they succeed they change the pause
  switch and nothing else, so every swap record is as before.
\<close>

theorem paused_blocks_swaps:
  "(paused s \<longrightarrow>
      createSwap sender tokA ownB tokB s = Inl SystemPaused \<and>
      acceptSwap sender swapId s = Inl SystemPaused \<and>
      cancelSwap sender swapId s = Inl SystemPaused \<and>
      exec s (CreateSwap sender tokA ownB tokB) = s \<and>
      exec s (AcceptSwap sender swapId) = s \<and>
      exec s (CancelSwap sender swapId) = s) \<and>
   (a \<noteq> owner t \<longrightarrow> pause a t = Inl NotAdministrator \<and> unpause a t = Inl NotAdministrator) \<and>
   (pause b v = Inr (v', u) \<longrightarrow> b = owner v \<and> v' = v\<lparr>paused := True\<rparr>) \<and>
   (unpause c w = Inr (w', u') \<longrightarrow>
      c = owner w \<and> w' = w\<lparr>paused := False\<rparr> \<and> swaps w' = swaps w \<and> \<not> paused w')"
  by (auto simp: exec_def createSwap_def acceptSwap_def cancelSwap_def whenNotPaused_def
      pause_Inr unpause_Inr pause_def unpause_def onlyOwner_def)

theorem paused_blocks_swaps_witness:
  "paused halted \<and> 1 \<noteq> owner offered \<and>
   pause 9 offered = Inr (halted, ()) \<and> unpause 9 halted = Inr (offered, ()) \<and>
   createSwap 1 1 2 2 halted = Inl SystemPaused \<and>
   acceptSwap 1 1 halted = Inl SystemPaused \<and>
   cancelSwap 1 1 halted = Inl SystemPaused \<and>
   exec halted (CancelSwap 1 1) = halted \<and>
   pause 1 offered = Inl NotAdministrator \<and>
   swaps offered = swaps halted \<and> \<not> paused offered"
proof -
  have h: "paused halted" "1 \<noteq> owner offered" "unpause 9 halted = Inr (offered, ())"
    by (simp_all add: halted_eq offered_eq unpause_Inr)
  show ?thesis
    using h halted_eq(1)
      paused_blocks_swaps [of halted 1 1 2 2 1 1 offered 9 offered halted "()" 9 halted offered "()"]
    by simp
qed

section \<open>Unset swaps\<close>

text \<open>
  C9. In every state of a history of external transactions, an id that was never
  created (0, or one from \<open>nextSwapId\<close> on) holds the all-zero record; so does, in every
  later state, an id whose swap was cancelled. For such an id the two owner fields are
  the zero address, and \<open>acceptSwap\<close> and \<open>cancelSwap\<close> fail for every sender other than
  the zero address and leave the state as it was.
\<close>

theorem unset_swap_rejects:
  "(external cs \<and> sender \<noteq> 0 \<and> s = run (deployed this d) cs \<and>
      (swapId = 0 \<or> nextSwapId s \<le> swapId) \<longrightarrow>
      swaps s swapId = zeroSwap \<and>
      tokenAOwner (swaps s swapId) = 0 \<and> tokenBOwner (swaps s swapId) = 0 \<and>
      acceptSwap sender swapId s = Inl (if paused s then SystemPaused else NotCounterparty) \<and>
      cancelSwap sender swapId s = Inl (if paused s then SystemPaused else NotProposer) \<and>
      exec s (AcceptSwap sender swapId) = s \<and> exec s (CancelSwap sender swapId) = s) \<and>
   (external cs1 \<and> p \<noteq> 0 \<and> cancelSwap p j (run (deployed this' d') cs1) = Inr (t0, u) \<and>
      external cs2 \<and> t = run t0 cs2 \<and> a \<noteq> 0 \<longrightarrow>
      swaps t j = zeroSwap \<and>
      tokenAOwner (swaps t j) = 0 \<and> tokenBOwner (swaps t j) = 0 \<and>
      acceptSwap a j t = Inl (if paused t then SystemPaused else NotCounterparty) \<and>
      cancelSwap a j t = Inl (if paused t then SystemPaused else NotProposer) \<and>
      exec t (AcceptSwap a j) = t \<and> exec t (CancelSwap a j) = t)"
proof (intro conjI impI)
  assume h: "external cs \<and> sender \<noteq> 0 \<and> s = run (deployed this d) cs \<and>
    (swapId = 0 \<or> nextSwapId s \<le> swapId)"
  then have w: "wf s" using wf_run [OF wf_deployed] by simp
  with h have z: "swaps s swapId = zeroSwap" by (auto simp: wf_def)
  from w have e: "\<not> entered s" by (simp add: wf_def)
  note a = acceptSwap_unset [OF z _ e, of sender] cancelSwap_unset [OF z _ e, of sender]
  from h show "swaps s swapId = zeroSwap" "tokenAOwner (swaps s swapId) = 0"
    "tokenBOwner (swaps s swapId) = 0"
    "acceptSwap sender swapId s = Inl (if paused s then SystemPaused else NotCounterparty)"
    "cancelSwap sender swapId s = Inl (if paused s then SystemPaused else NotProposer)"
    "exec s (AcceptSwap sender swapId) = s" "exec s (CancelSwap sender swapId) = s"
    using z a by (simp_all add: exec_def)
next
  assume h: "external cs1 \<and> p \<noteq> 0 \<and> cancelSwap p j (run (deployed this' d') cs1) = Inr (t0, u) \<and>
      external cs2 \<and> t = run t0 cs2 \<and> a \<noteq> 0"
  let ?s = "run (deployed this' d') cs1"
  from h have c: "cancelSwap p j ?s = Inr (t0, u)" by simp
  from h have w: "wf ?s" using wf_run [OF wf_deployed] by simp
  have w0: "wf t0" by (rule wf_cancelSwap [OF w c])
  have "swaps ?s j \<noteq> zeroSwap" using cancelSwap_Inr(4) [OF c] h by auto
  from wf_nonzero(2) [OF w this] have lt: "j < nextSwapId t0"
    unfolding cancelSwap_Inr(6) [OF c] by simp
  have z0: "swaps t0 j = zeroSwap" unfolding cancelSwap_Inr(6) [OF c] by simp
  from h have z: "swaps t j = zeroSwap" using erased_run [OF w0 _ z0 lt] by simp
  from h have e: "\<not> entered t" using wf_run [OF w0] by (simp add: wf_def)
  note r = acceptSwap_unset [OF z _ e, of a] cancelSwap_unset [OF z _ e, of a]
  from h show "swaps t j = zeroSwap" "tokenAOwner (swaps t j) = 0"
    "tokenBOwner (swaps t j) = 0"
    "acceptSwap a j t = Inl (if paused t then SystemPaused else NotCounterparty)"
    "cancelSwap a j t = Inl (if paused t then SystemPaused else NotProposer)"
    "exec t (AcceptSwap a j) = t" "exec t (CancelSwap a j) = t"
    using z r by (simp_all add: exec_def)
qed

theorem unset_swap_rejects_witness:
  "swaps offered 7 = zeroSwap \<and>
   acceptSwap 2 7 offered = Inl NotCounterparty \<and>
   cancelSwap 2 7 offered = Inl NotProposer \<and>
   exec offered (AcceptSwap 2 7) = offered \<and>
   cancelSwap 1 1 offered = Inr (withdrawn, ()) \<and>
   swaps (run withdrawn [Approve 2 100 2]) 1 = zeroSwap \<and>
   acceptSwap 2 1 (run withdrawn [Approve 2 100 2]) = Inl NotCounterparty \<and>
   cancelSwap 2 1 (run withdrawn [Approve 2 100 2]) = Inl NotProposer"
proof -
  let ?cs = "[Mint 1 1 True ''pikachu'', Mint 2 2 True ''bulbasaur'', Approve 1 100 1, CreateSwap 1 1 2 2]"
  let ?t = "run withdrawn [Approve 2 100 2]"
  have h1: "external ?cs \<and> (2::address) \<noteq> 0 \<and> offered = run (deployed 100 9) ?cs \<and>
      ((7::uint256) = 0 \<or> nextSwapId offered \<le> 7)"
  proof (intro conjI disjI2)
    show "nextSwapId offered \<le> 7" by (simp add: offered_eq)
  qed (simp_all add: offered_def)
  have h2: "external ?cs \<and> (1::address) \<noteq> 0 \<and>
      cancelSwap 1 1 (run (deployed 100 9) ?cs) = Inr (withdrawn, ()) \<and>
      external [Approve 2 100 2] \<and> ?t = run withdrawn [Approve 2 100 2] \<and> (2::address) \<noteq> 0"
    using withdrawn_eq offered_history by simp
  have p: "\<not> paused offered" "\<not> paused ?t"
    by (simp_all add: withdrawn_def offered_eq eval_defs)
  show ?thesis
    using h1 h2 p withdrawn_eq
      unset_swap_rejects [of ?cs 2 offered 100 9 7 ?cs 1 1 100 9 withdrawn "()" "[Approve 2 100 2]" ?t 2]
    by simp
qed

section \<open>The cancellation event\<close>

text \<open>
  C10. Every successful \<open>cancelSwap\<close> appends exactly one \<open>SwapCancelled\<close> event whose
  owner field is the zero address, although the proposer (the sender) is not the zero
  address: the record is deleted before the field is read.
\<close>

theorem cancelSwap_event_owner_zero:
  assumes "cancelSwap sender swapId s = Inr (s', u)"
  shows "swapLog s' = swapLog s @ [SwapCancelled swapId 0] \<and>
         tokenAOwner (swaps s swapId) = sender"
  using cancelSwap_Inr(4,6) [OF assms] by simp

theorem cancelSwap_event_owner_zero_witness:
  "cancelSwap 1 1 offered = Inr (withdrawn, ()) \<and>
   swapLog withdrawn = [SwapCreated 1 1 1 2 2, SwapCancelled 1 0] \<and>
   tokenAOwner (swaps offered 1) = 1"
  using withdrawn_eq cancelSwap_event_owner_zero [OF withdrawn_eq]
  by (simp add: offered_eq)

end
